(* ===== verification/Prelude.thy ===== *)
theory Prelude
  imports Complex_Main "HOL-Library.Multiset" "HOL-Library.Product_Lexorder"
begin

text \<open>
  Shared vocabulary of the faststats development: the Python exceptions the code can
  raise, the result type of fallible operations, Python's negative-index convention,
  and generic facts on flat buffers cut into equal rows, which every component uses
  when a two-dimensional \<open>(rows, n)\<close> array is read row by row.
\<close>

named_theorems arr_simps "characteristic equations of the array model"

section \<open>Errors and results\<close>

text \<open>
  The exceptions raised on the paths of the code: \<open>TypeError\<close> (not an array, a call
  with a missing argument), \<open>ValueError\<close> (bad axis, unknown method, bad reshape,
  unsupported keep-axes tuple), \<open>AssertionError\<close> (the \<open>assert q is not None\<close> of
  \<open>faststat\<close>), \<open>AxisError\<close> (numpy's axis normalisation), \<open>IndexError\<close>, and
  numba's \<open>TypingError\<close> (a body of an \<open>@nb.njit\<close> function that does not type).
\<close>

datatype py_error = TypeError | ValueError | AssertionError | AxisError | IndexError | TypingError

type_synonym 'a result = "py_error + 'a"

definition rbind :: "'a result \<Rightarrow> ('a \<Rightarrow> 'b result) \<Rightarrow> 'b result" where
  "rbind r f = (case r of Inl e \<Rightarrow> Inl e | Inr x \<Rightarrow> f x)"

lemma rbind_Inl [simp]: "rbind (Inl e) f = Inl e"
  and rbind_Inr [simp]: "rbind (Inr x) f = f x"
  by (simp_all add: rbind_def)

lemma rbind_eq_Inr:
  "rbind r f = Inr y \<longleftrightarrow> (\<exists>x. r = Inr x \<and> f x = Inr y)"
  by (cases r) simp_all

lemma rbind_assoc: "rbind (rbind r f) g = rbind r (\<lambda>x. rbind (f x) g)"
  by (cases r) simp_all

text \<open>
  A loop whose body may raise, run over a list in order: the first exception ends it,
  otherwise it yields the list of the bodies' values.
\<close>

fun mapM_r :: "('a \<Rightarrow> 'b result) \<Rightarrow> 'a list \<Rightarrow> 'b list result" where
  "mapM_r f [] = Inr []"
| "mapM_r f (x # xs) = rbind (f x) (\<lambda>y. rbind (mapM_r f xs) (\<lambda>ys. Inr (y # ys)))"

lemma mapM_r_Inr_cong: "\<forall>x \<in> set xs. f x = Inr (g x) \<Longrightarrow> mapM_r f xs = Inr (map g xs)"
  by (induction xs) simp_all

section \<open>Shapes and indices\<close>

type_synonym shape = "nat list"
type_synonym idx = "nat list"

text \<open>Python's reading of a possibly negative axis number against a rank.\<close>

definition py_axis :: "nat \<Rightarrow> int \<Rightarrow> int" where
  "py_axis n a = (if a < 0 then a + int n else a)"

definition axis_in_range :: "nat \<Rightarrow> int \<Rightarrow> bool" where
  "axis_in_range n a \<longleftrightarrow> - int n \<le> a \<and> a < int n"

lemma py_axis_bounds [intro]:
  "axis_in_range n a \<Longrightarrow> 0 \<le> py_axis n a \<and> py_axis n a < int n"
  by (simp add: py_axis_def axis_in_range_def)

lemma py_axis_nonneg [simp]: "0 \<le> a \<Longrightarrow> py_axis n a = a"
  by (simp add: py_axis_def)

section \<open>Flat buffers cut into rows\<close>

text \<open>
  \<open>take n (drop (k * n) xs)\<close> is row \<open>k\<close> of a C-ordered \<open>(rows, n)\<close> buffer.
  When the buffer is the concatenation of blocks of length \<open>n\<close>, row \<open>k\<close> is block
  \<open>k\<close>.
\<close>

lemma length_concat_const:
  "\<forall>xs \<in> set xss. length xs = n \<Longrightarrow> length (concat xss) = length xss * n"
  by (induction xss) auto

lemma row_of_concat_const:
  "\<forall>xs \<in> set xss. length xs = n \<Longrightarrow> k < length xss \<Longrightarrow>
   take n (drop (k * n) (concat xss)) = xss ! k"
proof (induction xss arbitrary: k)
  case Nil
  then show ?case by simp
next
  case (Cons ys yss)
  show ?case
  proof (cases k)
    case 0
    with Cons.prems show ?thesis by simp
  next
    case (Suc k')
    with Cons.prems have "take n (drop (k' * n) (concat yss)) = yss ! k'"
      by (intro Cons.IH) auto
    with Suc Cons.prems show ?thesis
      by (simp add: add.commute)
  qed
qed

lemma rows_of_concat_const:
  "\<forall>xs \<in> set xss. length xs = n \<Longrightarrow>
   map (\<lambda>k. take n (drop (k * n) (concat xss))) [0..<length xss] = xss"
  by (rule nth_equalityI) (simp_all add: row_of_concat_const)

lemma prod_list_if_one:
  "prod_list (map (\<lambda>i. if P i then 1 else f i) xs) = prod_list (map f (filter (\<lambda>i. \<not> P i) xs))"
  by (induction xs) simp_all

lemma prod_filter_split:
  "prod_list (map (f :: 'b \<Rightarrow> nat) (filter P xs)) * prod_list (map f (filter (\<lambda>x. \<not> P x) xs))
   = prod_list (map f xs)"
proof (induction xs)
  case Nil
  then show ?case by simp
next
  case (Cons x xs)
  let ?A = "prod_list (map f (filter P xs))" and ?B = "prod_list (map f (filter (\<lambda>x. \<not> P x) xs))"
  have "?A * (f x * ?B) = f x * (?A * ?B)" by (rule mult.left_commute)
  with Cons show ?case
    by (cases "P x") (simp_all add: mult.assoc)
qed

lemma sort_eq_mset: "mset xs = mset ys \<Longrightarrow> sort xs = sort ys"
  by (metis properties_for_sort mset_sort sorted_sort)

lemma shape_split_last:
  "length sh = Suc p \<Longrightarrow> sh = map ((!) sh) [0..<p] @ [sh ! p]"
  by (rule nth_equalityI) (auto simp: nth_append intro: arg_cong[where f = "(!) sh"])

lemma concat_concat_map: "concat (concat xsss) = concat (map concat xsss)"
  by (induction xsss) simp_all

lemma concat_map_upt_blocks:
  "concat (map (\<lambda>i. map (\<lambda>j. i * n + j) [0..<n]) [0..<d]) = [0..<d * n]"
proof (induction d)
  case 0
  then show ?case by simp
next
  case (Suc d)
  have "[0..<Suc d * n] = [0..<d * n] @ [d * n..<d * n + n]"
    using upt_add_eq_append[of 0 "d * n" n] by (simp add: add.commute)
  moreover have "map (\<lambda>j. d * n + j) [0..<n] = [d * n..<d * n + n]"
    by (rule nth_equalityI) simp_all
  ultimately show ?case using Suc by simp
qed

end
