(* ===== verification/NDArray.thy ===== *)
theory NDArray
  imports Prelude
begin

text \<open>
  The part of numpy the code relies on, modelled from numpy's documented semantics
  (numpy is a library the sources call, not part of the repository): an array as a
  shape and a C-ordered (row-major) buffer, the enumeration of its multi-indices in
  row-major order, \<open>ravel\<close> (multi-index to flat offset), \<open>transpose\<close>,
  \<open>normalize_axis_tuple\<close>, \<open>moveaxis\<close> (numpy's own algorithm: the kept axes in
  order, then \<open>list.insert\<close> of each moved axis at its sorted destination) and
  \<open>reshape\<close> with at most one inferred \<open>-1\<close> dimension.
\<close>

section \<open>Arrays\<close>

record 'a ndarray =
  shape :: shape
  buf :: "'a list"

definition ndim :: "'a ndarray \<Rightarrow> nat" where
  "ndim a = length (shape a)"

definition wf_arr :: "'a ndarray \<Rightarrow> bool" where
  "wf_arr a \<longleftrightarrow> length (buf a) = prod_list (shape a)"

text \<open>All multi-indices of a shape, in row-major (C) order.\<close>

fun indices :: "shape \<Rightarrow> idx list" where
  "indices [] = [[]]"
| "indices (d # ds) = concat (map (\<lambda>i. map ((#) i) (indices ds)) [0..<d])"

text \<open>The flat offset of a multi-index in a C-ordered buffer.\<close>

fun ravel :: "shape \<Rightarrow> idx \<Rightarrow> nat" where
  "ravel (d # ds) (i # is) = i * prod_list ds + ravel ds is"
| "ravel _ _ = 0"

definition get :: "'a ndarray \<Rightarrow> idx \<Rightarrow> 'a" where
  "get a i = buf a ! ravel (shape a) i"

text \<open>\<open>place perm j base\<close> writes \<open>j ! t\<close> at position \<open>perm ! t\<close> of \<open>base\<close>.\<close>

fun place :: "nat list \<Rightarrow> nat list \<Rightarrow> nat list \<Rightarrow> nat list" where
  "place (p # ps) (x # xs) base = (place ps xs base)[p := x]"
| "place _ _ base = base"

text \<open>
  \<open>a.transpose(perm)\<close>: axis \<open>t\<close> of the result is axis \<open>perm ! t\<close> of \<open>a\<close>, so the
  result at \<open>j\<close> is \<open>a\<close> at the index whose component \<open>perm ! t\<close> is \<open>j ! t\<close>.
  The result is materialised in C order, as every later \<open>reshape\<close> reads it.
\<close>

definition transpose :: "'a ndarray \<Rightarrow> nat list \<Rightarrow> 'a ndarray" where
  "transpose a perm =
     (let sh = map ((!) (shape a)) perm
      in \<lparr>shape = sh, buf = map (\<lambda>j. get a (place perm j (replicate (length perm) 0))) (indices sh)\<rparr>)"

section \<open>Axis normalisation\<close>

definition normalize_axis_index :: "nat \<Rightarrow> int \<Rightarrow> nat result" where
  "normalize_axis_index n ax =
     (if axis_in_range n ax then Inr (nat (py_axis n ax)) else Inl AxisError)"

fun normalize_axes :: "nat \<Rightarrow> int list \<Rightarrow> nat list result" where
  "normalize_axes n [] = Inr []"
| "normalize_axes n (a # as) =
     rbind (normalize_axis_index n a) (\<lambda>x. rbind (normalize_axes n as) (\<lambda>xs. Inr (x # xs)))"

definition normalize_axis_tuple :: "nat \<Rightarrow> int list \<Rightarrow> nat list result" where
  "normalize_axis_tuple n axes =
     rbind (normalize_axes n axes) (\<lambda>xs. if distinct xs then Inr xs else Inl ValueError)"

section \<open>moveaxis\<close>

text \<open>Python's \<open>list.insert(i, x)\<close> for \<open>i \<ge> 0\<close>: past the end it appends.\<close>

fun list_insert :: "nat \<Rightarrow> 'a \<Rightarrow> 'a list \<Rightarrow> 'a list" where
  "list_insert 0 x ys = x # ys"
| "list_insert (Suc i) x [] = [x]"
| "list_insert (Suc i) x (y # ys) = y # list_insert i x ys"

definition moveaxis_order :: "nat \<Rightarrow> nat list \<Rightarrow> nat list \<Rightarrow> nat list" where
  "moveaxis_order n src dst =
     foldl (\<lambda>order (d, s). list_insert d s order)
       (filter (\<lambda>k. k \<notin> set src) [0..<n]) (sort (zip dst src))"

definition moveaxis :: "'a ndarray \<Rightarrow> int list \<Rightarrow> int list \<Rightarrow> 'a ndarray result" where
  "moveaxis a source destination =
     rbind (normalize_axis_tuple (ndim a) source) (\<lambda>src.
     rbind (normalize_axis_tuple (ndim a) destination) (\<lambda>dst.
       if length src \<noteq> length dst then Inl ValueError
       else Inr (transpose a (moveaxis_order (ndim a) src dst))))"

section \<open>reshape\<close>

text \<open>
  \<open>np.reshape(a, newshape)\<close>: a negative entry other than \<open>-1\<close>, or more than one
  \<open>-1\<close>, is a \<open>ValueError\<close>; one \<open>-1\<close> is inferred from the size, which must divide
  evenly by the product of the known entries (a zero product cannot be divided); with
  no \<open>-1\<close> the product must equal the size. The C-ordered buffer is kept.
\<close>

definition reshape :: "'a ndarray \<Rightarrow> int list \<Rightarrow> 'a ndarray result" where
  "reshape a newshape =
     (let n = length (buf a);
          unknown = length (filter (\<lambda>d. d < 0) newshape);
          known = prod_list (map nat (filter (\<lambda>d. 0 \<le> d) newshape))
      in if list_ex (\<lambda>d. d < -1) newshape \<or> 1 < unknown then Inl ValueError
         else if unknown = 0 then
           (if known = n then Inr \<lparr>shape = map nat newshape, buf = buf a\<rparr> else Inl ValueError)
         else if known = 0 \<or> n mod known \<noteq> 0 then Inl ValueError
         else Inr \<lparr>shape = map (\<lambda>d. if d < 0 then n div known else nat d) newshape, buf = buf a\<rparr>)"

text \<open>The axes \<open>moveaxis\<close> leaves in front, in their original order.\<close>

definition keep_axes_of :: "nat \<Rightarrow> nat list \<Rightarrow> nat list" where
  "keep_axes_of n src = filter (\<lambda>k. k \<notin> set src) [0..<n]"

text \<open>Row \<open>k\<close> of a \<open>(rows, n)\<close> array, as \<open>data[k]\<close> reads it.\<close>

definition row_slices :: "nat \<Rightarrow> nat \<Rightarrow> 'a list \<Rightarrow> 'a list list" where
  "row_slices r n xs = map (\<lambda>k. take n (drop (k * n) xs)) [0..<r]"

section \<open>Lemmas: indices and offsets\<close>

text \<open>
  \<open>indices\<close> and \<open>ravel\<close> are inverse: the row-major enumeration of a shape lists
  every in-range multi-index exactly once, and \<open>ravel\<close> sends the \<open>k\<close>-th of them to
  \<open>k\<close>. These are the facts that make a C-ordered buffer a faithful array.
\<close>

lemma length_indices [simp]: "length (indices sh) = prod_list sh"
  by (induction sh) (simp_all add: length_concat comp_def sum_list_triv)

lemma indices_append:
  "indices (xs @ ys) = concat (map (\<lambda>i. map ((@) i) (indices ys)) (indices xs))"
proof (induction xs)
  case Nil
  have "map ((@) []) zs = zs" for zs :: "nat list list" by (induction zs) simp_all
  then show ?case by simp
next
  case (Cons d ds)
  have e: "(@) (x # xs) = (\<lambda>ys. x # xs @ ys)" for x :: nat and xs by auto
  from Cons show ?case by (simp add: map_concat comp_def concat_concat_map e)
qed

lemma set_indices:
  "set (indices sh) = {i. length i = length sh \<and> (\<forall>k < length sh. i ! k < sh ! k)}"
proof (induction sh)
  case Nil
  then show ?case by simp
next
  case (Cons d ds)
  show ?case
  proof (intro set_eqI iffI)
    fix i assume "i \<in> set (indices (d # ds))"
    with Cons show "i \<in> {i. length i = length (d # ds) \<and> (\<forall>k < length (d # ds). i ! k < (d # ds) ! k)}"
      by (auto simp: nth_Cons' split: if_splits)
  next
    fix i assume i: "i \<in> {i. length i = length (d # ds) \<and> (\<forall>k < length (d # ds). i ! k < (d # ds) ! k)}"
    then obtain x xs where [simp]: "i = x # xs" by (cases i) auto
    from i have "x < d" by force
    moreover from i have "xs \<in> set (indices ds)" using Cons by force
    ultimately show "i \<in> set (indices (d # ds))" by auto
  qed
qed

lemma map_ravel_indices: "map (ravel sh) (indices sh) = [0..<prod_list sh]"
proof (induction sh)
  case Nil
  then show ?case by simp
next
  case (Cons d ds)
  have "map (ravel (d # ds)) (indices (d # ds))
        = concat (map (\<lambda>i. map (\<lambda>j. i * prod_list ds + j) (map (ravel ds) (indices ds))) [0..<d])"
    by (simp add: map_concat comp_def)
  also have "\<dots> = [0..<d * prod_list ds]"
    by (simp only: Cons.IH concat_map_upt_blocks)
  finally show ?case by simp
qed

lemma distinct_indices: "distinct (indices sh)"
  using map_ravel_indices[of sh] by (metis distinct_map distinct_upt)

lemma length_place [simp]: "length (place ps xs base) = length base"
  by (induction ps xs base rule: place.induct) simp_all

lemma nth_place_other: "q \<notin> set ps \<Longrightarrow> place ps xs base ! q = base ! q"
  by (induction ps xs base rule: place.induct) auto

lemma nth_place:
  "distinct ps \<Longrightarrow> length xs = length ps \<Longrightarrow> set ps \<subseteq> {..<length base} \<Longrightarrow> t < length ps \<Longrightarrow>
   place ps xs base ! (ps ! t) = xs ! t"
proof (induction ps xs base arbitrary: t rule: place.induct)
  case (1 p ps x xs base)
  then show ?case
    by (cases t) (auto simp: nth_list_update nth_place_other)
qed simp_all

lemma normalize_axes_eq:
  "normalize_axes n xs =
     (if list_all (axis_in_range n) xs then Inr (map (\<lambda>a. nat (py_axis n a)) xs) else Inl AxisError)"
  by (induction xs) (auto simp: normalize_axis_index_def)

lemma list_insert_end: "list_insert (length ys) x ys = ys @ [x]"
  by (induction ys) simp_all

lemma foldl_insert_end:
  "foldl (\<lambda>order (d, s). list_insert d s order) base (zip [length base..<length base + length src] src)
   = base @ src"
proof (induction src arbitrary: base)
  case Nil
  then show ?case by simp
next
  case (Cons s ss)
  have "zip [length base..<length base + length (s # ss)] (s # ss)
        = (length base, s) # zip [length (base @ [s])..<length (base @ [s]) + length ss] ss"
    by (simp add: upt_rec)
  then show ?case using Cons.IH[of "base @ [s]"] by (simp add: list_insert_end)
qed

lemma sorted_zip_upt: "sorted (zip [m..<m + length xs] xs)"
proof (induction xs arbitrary: m)
  case Nil
  then show ?case by simp
next
  case (Cons x xs)
  have "zip [m..<m + length (x # xs)] (x # xs) = (m, x) # zip [Suc m..<Suc m + length xs] xs"
    by (simp add: upt_rec)
  moreover have "\<forall>y \<in> set (zip [Suc m..<Suc m + length xs] xs). (m, x) \<le> y"
    by (auto dest!: set_zip_leftD simp: less_eq_prod_def)
  ultimately show ?case using Cons.IH[of "Suc m"] by simp
qed

lemma length_filter_notin:
  "distinct src \<Longrightarrow> set src \<subseteq> {..<n} \<Longrightarrow> length (filter (\<lambda>k. k \<notin> set src) [0..<n]) = n - length src"
proof -
  assume d: "distinct src" and s: "set src \<subseteq> {..<n}"
  have "length (filter (\<lambda>k. k \<notin> set src) [0..<n]) = card ({..<n} - set src)"
    by (metis distinct_card distinct_filter distinct_upt set_filter set_upt atLeast0LessThan Diff_eq Collect_conj_eq set_diff_eq)
  also have "\<dots> = n - length src"
    using d s by (simp add: card_Diff_subset distinct_card)
  finally show ?thesis .
qed

lemma moveaxis_order_trailing:
  "distinct src \<Longrightarrow> set src \<subseteq> {..<n} \<Longrightarrow>
   moveaxis_order n src [n - length src..<n] = filter (\<lambda>k. k \<notin> set src) [0..<n] @ src"
proof -
  assume d: "distinct src" and s: "set src \<subseteq> {..<n}"
  let ?keep = "filter (\<lambda>k. k \<notin> set src) [0..<n]"
  have len: "length ?keep = n - length src" using d s by (rule length_filter_notin)
  have le: "length src \<le> n" using d s by (metis card_mono card_lessThan distinct_card finite_lessThan)
  have up: "[n - length src..<n] = [length ?keep..<length ?keep + length src]"
    using len le by simp
  have "sort (zip [length ?keep..<length ?keep + length src] src) = zip [length ?keep..<length ?keep + length src] src"
    by (rule sorted_sort_id[OF sorted_zip_upt])
  then show ?thesis
    unfolding moveaxis_order_def up by (simp only: foldl_insert_end)
qed

lemma normalize_axis_tuple_eq:
  "normalize_axis_tuple n xs =
     (if list_all (axis_in_range n) xs
      then (if distinct (map (\<lambda>a. nat (py_axis n a)) xs)
            then Inr (map (\<lambda>a. nat (py_axis n a)) xs) else Inl ValueError)
      else Inl AxisError)"
  by (simp add: normalize_axis_tuple_def normalize_axes_eq)

lemma trailing_axes:
  "k \<le> n \<Longrightarrow> normalize_axis_tuple n [- int k..-1] = Inr [n - k..<n]"
proof -
  assume k: "k \<le> n"
  have all: "list_all (axis_in_range n) [- int k..-1]"
    using k by (auto simp: list_all_iff axis_in_range_def)
  have m: "map (\<lambda>a. nat (py_axis n a)) [- int k..-1] = [n - k..<n]"
    using k by (intro nth_equalityI) (auto simp: py_axis_def)
  show ?thesis
    by (simp add: normalize_axis_tuple_eq all m)
qed

lemma normalize_axis_tuple_Inr:
  assumes "normalize_axis_tuple n axes = Inr src"
  shows "distinct src \<and> set src \<subseteq> {..<n} \<and> length src = length axes"
proof -
  from assms have all: "list_all (axis_in_range n) axes"
    and src: "src = map (\<lambda>a. nat (py_axis n a)) axes" and d: "distinct src"
    by (auto simp: normalize_axis_tuple_eq split: if_splits)
  have "nat (py_axis n a) < n" if "a \<in> set axes" for a
    using that all py_axis_bounds[of n a] by (auto simp: list_all_iff)
  with src d show ?thesis by auto
qed

lemma moveaxis_trailing:
  assumes "normalize_axis_tuple (ndim a) axes = Inr src"
  shows "moveaxis a axes [- int (length axes)..-1] = Inr (transpose a (keep_axes_of (ndim a) src @ src))"
proof -
  from normalize_axis_tuple_Inr[OF assms]
  have d: "distinct src" and s: "set src \<subseteq> {..<ndim a}" and l: "length src = length axes"
    by auto
  have le: "length src \<le> ndim a"
    using d s by (metis card_mono card_lessThan distinct_card finite_lessThan)
  then have t: "normalize_axis_tuple (ndim a) [- int (length axes)..-1] = Inr [ndim a - length src..<ndim a]"
    using l trailing_axes by metis
  have mo: "moveaxis_order (ndim a) src [ndim a - length axes..<ndim a] = keep_axes_of (ndim a) src @ src"
    using moveaxis_order_trailing[OF d s] l by (simp add: keep_axes_of_def)
  show ?thesis
    using assms t l le mo by (simp add: moveaxis_def)
qed

lemma transpose_append_buf:
  "buf (transpose a (ks @ rs)) =
     concat (map (\<lambda>k. map (\<lambda>r. get a (place (ks @ rs) (k @ r) (replicate (length ks + length rs) 0)))
                          (indices (map ((!) (shape a)) rs)))
                 (indices (map ((!) (shape a)) ks)))"
  by (simp add: transpose_def indices_append map_concat comp_def Let_def)

lemma shape_transpose [simp]: "shape (transpose a perm) = map ((!) (shape a)) perm"
  by (simp add: transpose_def Let_def)

lemma reshape_rows:
  "length (buf a) = r * n \<Longrightarrow> 0 < n \<Longrightarrow> reshape a [-1, int n] = Inr \<lparr>shape = [r, n], buf = buf a\<rparr>"
  by (simp add: reshape_def)

lemma reshape_zero_row:
  "reshape a [-1, 0] = Inl ValueError"
  by (simp add: reshape_def)

lemma reshape_exact:
  "prod_list sh = length (buf a) \<Longrightarrow> reshape a (map int sh) = Inr \<lparr>shape = sh, buf = buf a\<rparr>"
  by (simp add: reshape_def filter_map comp_def list_ex_iff)

section \<open>Lemmas: well-formed results\<close>

text \<open>
  Every array \<open>transpose\<close> and \<open>moveaxis\<close> return is well formed: the buffer of a
  transposed array is enumerated over its shape.
\<close>

lemma wf_transpose [simp]: "wf_arr (transpose a perm)"
  by (simp add: wf_arr_def transpose_def Let_def)

lemma moveaxis_wf: "moveaxis a src dst = Inr r \<Longrightarrow> wf_arr r"
  by (auto simp: moveaxis_def rbind_eq_Inr split: if_splits)

end
