(* ===== verification/Axes.thy ===== *)
theory Axes
  imports NDArray
begin

text \<open>
  The axis argument of the public functions and the shape algebra around it. The
  argument is \<open>None\<close> (every axis), one integer, or a sequence of integers, negative
  values counting from the end. The helpers \<open>_check_axis\<close>, \<open>_numpy_fallback\<close> and
  \<open>_get_result_shape\<close> live in \<open>faststats/utils.py\<close>, which is not among the sources;
  they are modelled from the spec (sections 4.1 and 4.2). What \<open>faststat\<close> itself
  computes from the axis (lines 89-100 of \<open>_old_faststats/faststats.py\<close>) is modelled
  from the code.
\<close>

datatype axis_arg = AxisNone | AxisInt int | AxisSeq "int list"

text \<open>The axis argument as the list numpy's \<open>moveaxis\<close> receives.\<close>

definition axis_list :: "axis_arg \<Rightarrow> int list" where
  "axis_list ax = (case ax of AxisNone \<Rightarrow> [] | AxisInt a \<Rightarrow> [a] | AxisSeq as \<Rightarrow> as)"

text \<open>
  \<open>_check_axis(axis, ndim)\<close>: every axis in \<open>[-ndim, ndim)\<close>, no duplicate after
  normalisation; an explicit empty sequence is rejected (spec 3, AxisSet); \<open>None\<close>
  passes.
\<close>

definition check_axis :: "axis_arg \<Rightarrow> nat \<Rightarrow> bool" where
  "check_axis ax n =
     (case ax of
        AxisNone \<Rightarrow> True
      | AxisInt a \<Rightarrow> axis_in_range n a
      | AxisSeq as \<Rightarrow> as \<noteq> [] \<and> list_all (axis_in_range n) as \<and> distinct (map (py_axis n) as))"

text \<open>\<open>_numpy_fallback(axis, ndim)\<close>: the reduction over every axis goes to numpy.\<close>

definition numpy_fallback :: "axis_arg \<Rightarrow> nat \<Rightarrow> bool" where
  "numpy_fallback ax n = (ax = AxisNone)"

text \<open>The reduced axes, normalised, in the order the caller gave them.\<close>

definition reduce_axes :: "axis_arg \<Rightarrow> nat \<Rightarrow> nat list" where
  "reduce_axes ax n = map (\<lambda>a. nat (py_axis n a)) (axis_list ax)"

text \<open>
  \<open>num_reduce\<close> (lines 90-93): the product of the reduced dimensions, read with
  Python indexing \<open>data_shape[i]\<close>.
\<close>

definition num_reduce :: "shape \<Rightarrow> axis_arg \<Rightarrow> nat" where
  "num_reduce sh ax =
     (case ax of
        AxisSeq as \<Rightarrow> prod_list (map (\<lambda>i. sh ! nat (py_axis (length sh) i)) as)
      | AxisInt a \<Rightarrow> sh ! nat (py_axis (length sh) a)
      | AxisNone \<Rightarrow> 0)"

text \<open>
  \<open>target\<close> (lines 96-99): \<open>np.arange(-len(axis), 0)\<close> for a sequence, \<open>-1\<close> for an
  integer; numpy's \<open>moveaxis\<close> reads an integer as a one-element tuple.
\<close>

definition move_target :: "axis_arg \<Rightarrow> int list" where
  "move_target ax = (case ax of AxisSeq as \<Rightarrow> [- int (length as)..-1] | _ \<Rightarrow> [-1])"

text \<open>The shape of the kept axes, in their original order (spec 4.2, keep_shape).\<close>

definition keep_shape :: "shape \<Rightarrow> nat list \<Rightarrow> shape" where
  "keep_shape sh red = map ((!) sh) (keep_axes_of (length sh) red)"

text \<open>
  \<open>_get_result_shape(data_shape, axis, keepdims)\<close>: with \<open>keepdims\<close> every reduced
  axis becomes \<open>1\<close> in place; without, the kept dimensions in order.
\<close>

definition result_shape :: "shape \<Rightarrow> nat list \<Rightarrow> bool \<Rightarrow> shape" where
  "result_shape sh red keepdims =
     (if keepdims then map (\<lambda>i. if i \<in> set red then 1 else sh ! i) [0..<length sh]
      else keep_shape sh red)"

definition get_result_shape :: "shape \<Rightarrow> axis_arg \<Rightarrow> bool \<Rightarrow> shape" where
  "get_result_shape sh ax keepdims = result_shape sh (reduce_axes ax (length sh)) keepdims"

section \<open>Lemmas\<close>

text \<open>
  A checked axis argument other than \<open>None\<close> normalises, under numpy's
  \<open>normalize_axis_tuple\<close>, to the reduced axes; these are distinct and in range.
\<close>

lemma check_axis_normalize:
  assumes "check_axis ax n" "ax \<noteq> AxisNone"
  shows "normalize_axis_tuple n (axis_list ax) = Inr (reduce_axes ax n)"
proof -
  have all: "list_all (axis_in_range n) (axis_list ax)"
    and dist: "distinct (map (py_axis n) (axis_list ax))"
    using assms by (auto simp: check_axis_def axis_list_def split: axis_arg.splits)
  have "inj_on (\<lambda>a. nat (py_axis n a)) (set (axis_list ax))"
  proof (rule inj_onI)
    fix x y assume "x \<in> set (axis_list ax)" "y \<in> set (axis_list ax)"
      and "nat (py_axis n x) = nat (py_axis n y)"
    with all have "py_axis n x = py_axis n y"
      using py_axis_bounds by (metis list_all_iff nat_eq_iff2)
    with dist \<open>x \<in> set (axis_list ax)\<close> \<open>y \<in> set (axis_list ax)\<close> show "x = y"
      by (auto simp: distinct_map inj_on_def)
  qed
  then have "distinct (map (\<lambda>a. nat (py_axis n a)) (axis_list ax))"
    using dist by (simp add: distinct_map)
  with all show ?thesis
    by (simp add: normalize_axis_tuple_eq reduce_axes_def)
qed

lemma reduce_axes_valid:
  assumes "check_axis ax n" "ax \<noteq> AxisNone"
  shows "distinct (reduce_axes ax n) \<and> set (reduce_axes ax n) \<subseteq> {..<n}"
  using normalize_axis_tuple_Inr[OF check_axis_normalize[OF assms]] by simp

lemma move_target_eq: "ax \<noteq> AxisNone \<Longrightarrow> move_target ax = [- int (length (axis_list ax))..-1]"
  by (cases ax) (simp_all add: move_target_def axis_list_def)

lemma num_reduce_eq:
  "ax \<noteq> AxisNone \<Longrightarrow> num_reduce sh ax = prod_list (map ((!) sh) (reduce_axes ax (length sh)))"
  by (cases ax) (simp_all add: num_reduce_def reduce_axes_def axis_list_def comp_def)

lemma num_reduce_mset:
  "ax \<noteq> AxisNone \<Longrightarrow> bx \<noteq> AxisNone \<Longrightarrow>
   mset (reduce_axes ax (length sh)) = mset (reduce_axes bx (length sh)) \<Longrightarrow>
   num_reduce sh ax = num_reduce sh bx"
  by (simp add: num_reduce_eq prod_mset_prod_list[symmetric] mset_map)

lemma keep_shape_sort [simp]: "keep_shape sh (sort red) = keep_shape sh red"
  by (simp add: keep_shape_def keep_axes_of_def)

lemma prod_result_shape: "prod_list (result_shape sh red kd) = prod_list (keep_shape sh red)"
  by (simp add: result_shape_def keep_shape_def keep_axes_of_def prod_list_if_one)

text \<open>The kept and the reduced dimensions together make up the whole array.\<close>

lemma prod_keep_red:
  assumes "distinct red" "set red \<subseteq> {..<length sh}"
  shows "prod_list (keep_shape sh red) * prod_list (map ((!) sh) red) = prod_list sh"
proof -
  have "mset (filter (\<lambda>k. k \<in> set red) [0..<length sh]) = mset red"
    using assms by (subst set_eq_iff_mset_eq_distinct[symmetric]) auto
  then have 1: "prod_list (map ((!) sh) (filter (\<lambda>k. k \<in> set red) [0..<length sh])) =
                prod_list (map ((!) sh) red)"
    by (metis mset_map prod_mset_prod_list)
  have 2: "prod_list (map ((!) sh) [0..<length sh]) = prod_list sh" by (simp add: map_nth)
  have 3: "prod_list (keep_shape sh red) =
           prod_list (map ((!) sh) (filter (\<lambda>k. \<not> k \<in> set red) [0..<length sh]))"
    by (simp add: keep_shape_def keep_axes_of_def)
  show ?thesis
    using prod_filter_split[of "(!) sh" "\<lambda>k. k \<in> set red" "[0..<length sh]"] 1 2 3
    by (simp add: mult.commute)
qed

end
