(* ===== verification/Reference.thy ===== *)
theory Reference
  imports Axes
begin

text \<open>
  The reference semantics the spec states for a reduction (sections 4.2, 4.3 and 6,
  \<open>reference_reduce\<close>): for each multi-index of the kept axes, the group of elements
  that agree with it on the kept axes, enumerated over the reduced axes; a reducing
  statistic maps each group to one value placed at the kept index, an elementwise one
  (z-score) maps each element of the group back to its own position.
\<close>

text \<open>
  \<open>row_source a red k\<close> (the \<open>restore_fn\<close> of spec 4.3, read backwards): the
  multi-indices of \<open>a\<close> that row \<open>k\<close> of the repacked \<open>(rows, reduce_count)\<close> matrix
  reads, and \<open>group a red k\<close>: the elements of \<open>a\<close> whose kept axes (the axes not in \<open>red\<close>, in
  order) carry the index \<open>k\<close>, enumerated in row-major order over the axes of \<open>red\<close>
  taken in the order of \<open>red\<close>. This is row \<open>k\<close> of the array after moving \<open>red\<close> to
  the back.
\<close>

definition row_source :: "'a ndarray \<Rightarrow> nat list \<Rightarrow> idx \<Rightarrow> idx list" where
  "row_source a red k =
     (let perm = keep_axes_of (ndim a) red @ red
      in map (\<lambda>r. place perm (k @ r) (replicate (length perm) 0))
           (indices (map ((!) (shape a)) red)))"

definition group :: "'a ndarray \<Rightarrow> nat list \<Rightarrow> idx \<Rightarrow> 'a list" where
  "group a red k = map (get a) (row_source a red k)"

text \<open>
  The reference reduction: reduced axes in increasing order (as numpy reduces a tuple of
  axes), one value per kept index, in the result shape.
\<close>

definition reduce_ref :: "('a list \<Rightarrow> 'b) \<Rightarrow> 'a ndarray \<Rightarrow> nat list \<Rightarrow> bool \<Rightarrow> 'b ndarray" where
  "reduce_ref f a red keepdims =
     \<lparr>shape = result_shape (shape a) red keepdims,
      buf = map (\<lambda>k. f (group a (sort red) k)) (indices (keep_shape (shape a) red))\<rparr>"

text \<open>
  The reference elementwise statistic: element \<open>i\<close> gets \<open>g\<close> of its group and of its
  position in the group; the result has the input's shape.
\<close>

definition elementwise_ref :: "('a list \<Rightarrow> nat \<Rightarrow> 'b) \<Rightarrow> 'a ndarray \<Rightarrow> nat list \<Rightarrow> 'b ndarray" where
  "elementwise_ref g a red =
     (let red' = sort red; keep = keep_axes_of (ndim a) red'
      in \<lparr>shape = shape a,
          buf = map (\<lambda>i. g (group a red' (map ((!) i) keep))
                            (ravel (map ((!) (shape a)) red') (map ((!) i) red')))
                  (indices (shape a))\<rparr>)"

text \<open>
  A statistic that depends only on the multiset of its row (sum, mean, std, median,
  percentile, ... all do): the order in which a group is enumerated does not matter.
\<close>

definition perm_invariant :: "('a list \<Rightarrow> 'b) \<Rightarrow> bool" where
  "perm_invariant f \<longleftrightarrow> (\<forall>xs ys. mset xs = mset ys \<longrightarrow> f xs = f ys)"

section \<open>Lemmas: groups\<close>

lemma perm_keep_red:
  assumes "distinct red" "set red \<subseteq> {..<n}"
  shows "distinct (keep_axes_of n red @ red) \<and> set (keep_axes_of n red @ red) = {..<n}
         \<and> length (keep_axes_of n red @ red) = n"
proof -
  have "length (keep_axes_of n red) = n - length red"
    using assms by (simp add: keep_axes_of_def length_filter_notin)
  moreover have "length red \<le> n"
    using assms by (metis card_mono card_lessThan distinct_card finite_lessThan)
  ultimately show ?thesis
    using assms by (auto simp: keep_axes_of_def)
qed

lemma keep_axes_of_cong: "set red = set red' \<Longrightarrow> keep_axes_of n red = keep_axes_of n red'"
  by (simp add: keep_axes_of_def)

lemma length_group [simp]: "length (group a red k) = prod_list (map ((!) (shape a)) red)"
  by (simp add: group_def row_source_def Let_def)

lemma buf_transpose_group:
  "buf (transpose a (keep_axes_of (ndim a) red @ red)) =
     concat (map (group a red) (indices (keep_shape (shape a) red)))"
  by (simp add: transpose_append_buf group_def[abs_def] row_source_def keep_shape_def ndim_def Let_def comp_def)

text \<open>Placing through a permutation of the axes is characterised pointwise.\<close>

lemma place_perm_eq_iff:
  assumes "distinct perm" "set perm = {..<n}" "length perm = n" "length j = n"
  shows "place perm j (replicate n 0) = i \<longleftrightarrow> length i = n \<and> (\<forall>p < n. i ! (perm ! p) = j ! p)"
proof
  assume "place perm j (replicate n 0) = i"
  then show "length i = n \<and> (\<forall>p < n. i ! (perm ! p) = j ! p)"
    using assms nth_place[of perm j "replicate n 0"] by auto
next
  assume i: "length i = n \<and> (\<forall>p < n. i ! (perm ! p) = j ! p)"
  show "place perm j (replicate n 0) = i"
  proof (rule nth_equalityI)
    show "length (place perm j (replicate n 0)) = length i" using i by simp
  next
    fix t assume "t < length (place perm j (replicate n 0))"
    then have "t \<in> set perm" using assms by simp
    then obtain p where p: "p < n" "perm ! p = t" using assms by (metis in_set_conv_nth)
    then show "place perm j (replicate n 0) ! t = i ! t"
      using assms i nth_place[of perm j "replicate n 0" p] by auto
  qed
qed

lemma in_indices_iff:
  "i \<in> set (indices sh) \<longleftrightarrow> length i = length sh \<and> (\<forall>k < length sh. i ! k < sh ! k)"
  by (simp add: set_indices)

lemma set_row_source:
  assumes d: "distinct red" and s: "set red \<subseteq> {..<ndim a}"
    and k: "k \<in> set (indices (keep_shape (shape a) red))"
  shows "set (row_source a red k) =
           {i \<in> set (indices (shape a)). map ((!) i) (keep_axes_of (ndim a) red) = k}"
proof -
  let ?n = "ndim a" and ?keep = "keep_axes_of (ndim a) red"
  let ?perm = "?keep @ red"
  from perm_keep_red[OF d s] have pd: "distinct ?perm" and ps: "set ?perm = {..<?n}"
    and pl: "length ?perm = ?n" by auto
  have pl2: "length ?keep + length red = ?n" using pl by simp
  from k have kl: "length k = length ?keep" and kb: "\<forall>p < length ?keep. k ! p < shape a ! (?keep ! p)"
    by (auto simp: in_indices_iff keep_shape_def ndim_def)
  have perm_shape: "shape a ! (?perm ! p) = (map ((!) (shape a)) ?keep @ map ((!) (shape a)) red) ! p"
    if "p < ?n" for p using that pl by (simp add: nth_append)
  show ?thesis
  proof (intro set_eqI iffI)
    fix i assume "i \<in> set (row_source a red k)"
    then obtain r where r: "r \<in> set (indices (map ((!) (shape a)) red))"
      and i: "i = place ?perm (k @ r) (replicate ?n 0)"
      by (auto simp: row_source_def pl2)
    from r have rl: "length r = length red" by (simp add: in_indices_iff)
    have jl: "length (k @ r) = ?n" using kl rl pl by simp
    from i have il: "length i = ?n" and ip: "\<forall>p < ?n. i ! (?perm ! p) = (k @ r) ! p"
      using place_perm_eq_iff[OF pd ps pl jl] by auto
    have "i ! t < shape a ! t" if t: "t < ?n" for t
    proof -
      from t ps obtain p where p: "p < ?n" "?perm ! p = t" by (metis in_set_conv_nth lessThan_iff pl)
      have "(k @ r) ! p < (map ((!) (shape a)) ?keep @ map ((!) (shape a)) red) ! p"
        using p kb r kl rl pl by (auto simp: nth_append in_indices_iff)
      then show ?thesis using p ip perm_shape by metis
    qed
    moreover have "map ((!) i) ?keep = k"
    proof (rule nth_equalityI)
      show "length (map ((!) i) ?keep) = length k" using kl by simp
    next
      fix p assume "p < length (map ((!) i) ?keep)"
      then have p: "p < length ?keep" by simp
      then have "p < ?n" using pl2 by linarith
      then have "i ! (?perm ! p) = (k @ r) ! p" using ip by blast
      with p kl show "map ((!) i) ?keep ! p = k ! p" by (simp add: nth_append)
    qed
    ultimately show "i \<in> {i \<in> set (indices (shape a)). map ((!) i) ?keep = k}"
      using il by (simp add: in_indices_iff ndim_def)
  next
    fix i assume "i \<in> {i \<in> set (indices (shape a)). map ((!) i) ?keep = k}"
    then have ii: "i \<in> set (indices (shape a))" and ik: "map ((!) i) ?keep = k" by auto
    let ?r = "map ((!) i) red"
    have r_in: "?r \<in> set (indices (map ((!) (shape a)) red))"
    proof -
      have "i ! (red ! q) < shape a ! (red ! q)" if q: "q < length red" for q
      proof -
        have "red ! q \<in> set red" using q by (rule nth_mem)
        with s have "red ! q < length (shape a)" by (auto simp: ndim_def)
        then show ?thesis using ii by (simp add: in_indices_iff)
      qed
      then show ?thesis by (simp add: in_indices_iff)
    qed
    have pl_eq: "place ?perm (k @ ?r) (replicate ?n 0) = i"
    proof -
      have "length (k @ ?r) = ?n" using kl pl by simp
      moreover have "\<forall>p < ?n. i ! (?perm ! p) = (k @ ?r) ! p"
        using ik kl pl by (auto simp: nth_append)
      ultimately show ?thesis
        using place_perm_eq_iff[OF pd ps pl] ii by (simp add: in_indices_iff ndim_def)
    qed
    show "i \<in> set (row_source a red k)"
      unfolding row_source_def Let_def pl set_map using pl_eq[symmetric] r_in by (rule image_eqI)
  qed
qed

lemma distinct_row_source:
  assumes d: "distinct red" and s: "set red \<subseteq> {..<ndim a}"
    and k: "k \<in> set (indices (keep_shape (shape a) red))"
  shows "distinct (row_source a red k)"
proof -
  let ?n = "ndim a" and ?keep = "keep_axes_of (ndim a) red"
  let ?perm = "?keep @ red"
  from perm_keep_red[OF d s] have pd: "distinct ?perm" and ps: "set ?perm = {..<?n}"
    and pl: "length ?perm = ?n" by auto
  have pl2: "length ?keep + length red = ?n" using pl by simp
  from k have kl: "length k = length ?keep" by (simp add: in_indices_iff keep_shape_def ndim_def)
  have inj: "inj_on (\<lambda>r. place ?perm (k @ r) (replicate ?n 0)) (set (indices (map ((!) (shape a)) red)))"
  proof (rule inj_onI)
    fix r r' assume r: "r \<in> set (indices (map ((!) (shape a)) red))"
      and r': "r' \<in> set (indices (map ((!) (shape a)) red))"
      and eq: "place ?perm (k @ r) (replicate ?n 0) = place ?perm (k @ r') (replicate ?n 0)"
    from r r' have l: "length (k @ r) = ?n" "length (k @ r') = ?n"
      using kl pl by (simp_all add: in_indices_iff)
    have A: "\<forall>p < ?n. place ?perm (k @ r) (replicate ?n 0) ! (?perm ! p) = (k @ r) ! p"
      using place_perm_eq_iff[OF pd ps pl l(1)] by blast
    have B: "\<forall>p < ?n. place ?perm (k @ r') (replicate ?n 0) ! (?perm ! p) = (k @ r') ! p"
      using place_perm_eq_iff[OF pd ps pl l(2)] by blast
    have "\<forall>p < ?n. (k @ r) ! p = (k @ r') ! p"
      using A B eq by simp
    then have "k @ r = k @ r'" using l by (intro nth_equalityI) auto
    then show "r = r'" by simp
  qed
  have "distinct (map (\<lambda>r. place ?perm (k @ r) (replicate ?n 0)) (indices (map ((!) (shape a)) red)))"
    unfolding distinct_map using inj distinct_indices by blast
  then show ?thesis
    unfolding row_source_def Let_def pl .
qed

lemma mset_group_reorder:
  assumes "distinct red" "distinct red'" "set red = set red'" "set red \<subseteq> {..<ndim a}"
    and k: "k \<in> set (indices (keep_shape (shape a) red))"
  shows "mset (group a red k) = mset (group a red' k)"
proof -
  have ks: "keep_shape (shape a) red = keep_shape (shape a) red'"
    using keep_axes_of_cong[OF assms(3)] by (simp add: keep_shape_def)
  have k': "k \<in> set (indices (keep_shape (shape a) red'))" using k ks by simp
  have s': "set red' \<subseteq> {..<ndim a}" using assms(3,4) by simp
  have "set (row_source a red k) = set (row_source a red' k)"
    using set_row_source[OF assms(1,4) k] set_row_source[OF assms(2) s' k']
      keep_axes_of_cong[OF assms(3)] by simp
  moreover have "distinct (row_source a red k)" "distinct (row_source a red' k)"
    using distinct_row_source[OF assms(1,4) k] distinct_row_source[OF assms(2) s' k'] by simp_all
  ultimately have "mset (row_source a red k) = mset (row_source a red' k)"
    by (simp add: set_eq_iff_mset_eq_distinct)
  then show ?thesis by (simp add: group_def)
qed

lemma group_sort_invariant:
  assumes "perm_invariant f" "distinct red" "set red \<subseteq> {..<ndim a}"
    and "k \<in> set (indices (keep_shape (shape a) red))"
  shows "f (group a red k) = f (group a (sort red) k)"
proof -
  have "mset (group a red k) = mset (group a (sort red) k)"
    using assms(2-4) by (intro mset_group_reorder) simp_all
  then show ?thesis using assms(1) unfolding perm_invariant_def by blast
qed

section \<open>Lemmas: identity permutation and the last axis\<close>

lemma transpose_id:
  assumes "wf_arr a"
  shows "transpose a [0..<ndim a] = a"
proof -
  let ?n = "ndim a"
  have sh: "map ((!) (shape a)) [0..<?n] = shape a" by (simp add: ndim_def map_nth)
  have pl: "place [0..<?n] j (replicate ?n 0) = j" if "j \<in> set (indices (shape a))" for j
    using that place_perm_eq_iff[of "[0..<?n]" ?n j j]
    by (simp add: in_indices_iff ndim_def atLeast0LessThan)
  have "map (\<lambda>j. get a (place [0..<?n] j (replicate ?n 0))) (indices (shape a))
        = map ((!) (buf a)) (map (ravel (shape a)) (indices (shape a)))"
    using pl by (simp add: get_def)
  also have "\<dots> = buf a"
    using assms map_nth[of "buf a"] by (simp add: map_ravel_indices wf_arr_def)
  finally have "buf (transpose a [0..<ndim a]) = buf a"
    by (simp add: transpose_def Let_def sh)
  moreover have "shape (transpose a [0..<ndim a]) = shape a"
    by (simp add: sh)
  ultimately show ?thesis by (simp add: ndarray.equality)
qed

lemma keep_axes_last: "keep_axes_of (Suc p) [p] = [0..<p]"
  by (simp add: keep_axes_of_def filter_id_conv)

lemma indices_single: "indices [d] = map (\<lambda>j. [j]) [0..<d]"
  by (simp add: map_concat comp_def)

text \<open>Along the last axis, the reference elementwise result is the groups, one after another.\<close>

lemma elementwise_ref_last:
  assumes p: "ndim a = Suc p"
  shows "buf (elementwise_ref g a [p]) =
           concat (map (\<lambda>k. map (g (group a [p] k)) [0..<shape a ! p])
                     (indices (keep_shape (shape a) [p])))"
proof -
  let ?d = "shape a ! p"
  let ?ksh = "keep_shape (shape a) [p]"
  have ksh: "?ksh = map ((!) (shape a)) [0..<p]"
    using p by (simp add: keep_shape_def ndim_def keep_axes_last)
  have sh: "shape a = ?ksh @ [?d]"
    using shape_split_last[of "shape a" p] p ksh by (simp add: ndim_def)
  have pt: "map ((!) (k @ [j])) [0..<p] = k \<and> (k @ [j]) ! p = j"
    if "k \<in> set (indices ?ksh)" for k j
    using that ksh by (auto simp: in_indices_iff nth_append intro: nth_equalityI)
  have "buf (elementwise_ref g a [p]) =
          map (\<lambda>i. g (group a [p] (map ((!) i) [0..<p])) (i ! p)) (indices (?ksh @ [?d]))"
    by (simp add: elementwise_ref_def Let_def p keep_axes_last sh[symmetric])
  also have "\<dots> = concat (map (\<lambda>k. map (g (group a [p] k)) [0..<?d]) (indices ?ksh))"
    using pt by (simp add: indices_append indices_single map_concat comp_def cong: map_cong)
  finally show ?thesis .
qed

end
