(* ===== verification/Kernels.thy ===== *)
theory Kernels
  imports Reference
begin

text \<open>
  The kernel table of \<open>_old_faststats/faststats.py\<close> (lines 34-60): the closed set of
  method names, the dictionary \<open>_method_lookup\<close> from name to kernel, and the lists
  \<open>_requires_q\<close> and \<open>_noreduction\<close>. The numeric kernels themselves (module
  \<open>_numba\<close>, and the numpy functions of the fallback) are not among the sources; the
  spec treats them as primitives \<open>reduce(slice)\<close>, \<open>reduce(slice, q)\<close> and, for
  z-scores, one output per element of the slice. They are the fields of the record
  \<open>kernels\<close>, a parameter of every operation, so that every theorem holds for any
  statistic the primitives compute.
\<close>

datatype stat_method =
    Sum | NanSum | Ptp | Percentile | NanPercentile | Quantile | NanQuantile | Median
  | Average | Mean | Std | Var | NanMedian | NanMean | NanStd | NanVar | Zscore | NanZscore

text \<open>\<open>_method_lookup\<close>, a dict from name to kernel, in the source's order.\<close>

definition method_table :: "(string \<times> stat_method) list" where
  "method_table =
     [(''sum'', Sum), (''nansum'', NanSum), (''ptp'', Ptp), (''percentile'', Percentile),
      (''nanpercentile'', NanPercentile), (''quantile'', Quantile),
      (''nanquantile'', NanQuantile), (''median'', Median), (''average'', Average),
      (''mean'', Mean), (''std'', Std), (''var'', Var), (''nanmedian'', NanMedian),
      (''nanmean'', NanMean), (''nanstd'', NanStd), (''nanvar'', NanVar),
      (''zscore'', Zscore), (''nan_zscore'', NanZscore)]"

definition method_lookup :: "string \<Rightarrow> stat_method option" where
  "method_lookup s = map_of method_table s"

definition requires_q :: "string list" where
  "requires_q = [''percentile'', ''nanpercentile'', ''quantile'', ''nanquantile'']"

definition noreduction :: "string list" where
  "noreduction = [''zscore'', ''nan_zscore'']"

text \<open>The name of a kernel, the inverse of the table.\<close>

primrec method_name :: "stat_method \<Rightarrow> string" where
  "method_name Sum = ''sum''"
| "method_name NanSum = ''nansum''"
| "method_name Ptp = ''ptp''"
| "method_name Percentile = ''percentile''"
| "method_name NanPercentile = ''nanpercentile''"
| "method_name Quantile = ''quantile''"
| "method_name NanQuantile = ''nanquantile''"
| "method_name Median = ''median''"
| "method_name Average = ''average''"
| "method_name Mean = ''mean''"
| "method_name Std = ''std''"
| "method_name Var = ''var''"
| "method_name NanMedian = ''nanmedian''"
| "method_name NanMean = ''nanmean''"
| "method_name NanStd = ''nanstd''"
| "method_name NanVar = ''nanvar''"
| "method_name Zscore = ''zscore''"
| "method_name NanZscore = ''nan_zscore''"

text \<open>The flags the spec (4.4) attaches to each kernel.\<close>

primrec needs_parameter :: "stat_method \<Rightarrow> bool" where
  "needs_parameter Sum = False" | "needs_parameter NanSum = False"
| "needs_parameter Ptp = False" | "needs_parameter Percentile = True"
| "needs_parameter NanPercentile = True" | "needs_parameter Quantile = True"
| "needs_parameter NanQuantile = True" | "needs_parameter Median = False"
| "needs_parameter Average = False" | "needs_parameter Mean = False"
| "needs_parameter Std = False" | "needs_parameter Var = False"
| "needs_parameter NanMedian = False" | "needs_parameter NanMean = False"
| "needs_parameter NanStd = False" | "needs_parameter NanVar = False"
| "needs_parameter Zscore = False" | "needs_parameter NanZscore = False"

definition is_elementwise :: "stat_method \<Rightarrow> bool" where
  "is_elementwise m \<longleftrightarrow> m = Zscore \<or> m = NanZscore"

text \<open>
  The numeric primitives: \<open>kred m q row\<close> is the statistic of a row, \<open>kelem m row j\<close>
  the elementwise output at position \<open>j\<close> of the row (z-score).
\<close>

record ('v, 'q) kernels =
  kred :: "stat_method \<Rightarrow> 'q option \<Rightarrow> 'v list \<Rightarrow> 'v"
  kelem :: "stat_method \<Rightarrow> 'v list \<Rightarrow> nat \<Rightarrow> 'v"

text \<open>
  A \<open>numba_*\<close> kernel of \<open>_numba\<close> applied to the \<open>(rows, n)\<close> array: one value per
  row for a reduction, a \<open>(rows, n)\<close> array for an elementwise kernel.
\<close>

definition numba_call :: "('v, 'q) kernels \<Rightarrow> stat_method \<Rightarrow> 'q option \<Rightarrow> 'v ndarray \<Rightarrow> 'v ndarray" where
  "numba_call K m q d =
     (let r = shape d ! 0; n = shape d ! 1; rows = row_slices r n (buf d)
      in if is_elementwise m
         then \<lparr>shape = [r, n], buf = concat (map (\<lambda>row. map (kelem K m row) [0..<n]) rows)\<rparr>
         else \<lparr>shape = [r], buf = map (kred K m q) rows\<rparr>)"

text \<open>
  \<open>_get_numpy_method(method)\<close> and its call on the whole array (lines 71-73): the
  statistic of the flattened array, a 0-d array; for an elementwise kernel, an array of
  the input's shape. A method that needs \<open>q\<close> is called as \<open>_func(data, q)\<close> even when
  \<open>q\<close> is \<open>None\<close>, and numpy's \<open>percentile\<close>/\<open>quantile\<close> raise \<open>TypeError\<close> on a
  \<open>None\<close> \<open>q\<close> (they compare and divide it as a number).
\<close>

definition numpy_call :: "('v, 'q) kernels \<Rightarrow> string \<Rightarrow> 'v ndarray \<Rightarrow> 'q option \<Rightarrow> 'v ndarray result" where
  "numpy_call K method a q =
     (case method_lookup method of
        None \<Rightarrow> Inl ValueError
      | Some m \<Rightarrow>
          if needs_parameter m \<and> q = None then Inl TypeError
          else if is_elementwise m
          then Inr \<lparr>shape = shape a, buf = map (kelem K m (buf a)) [0..<length (buf a)]\<rparr>
          else Inr \<lparr>shape = [], buf = [kred K m q (buf a)]\<rparr>)"

text \<open>
  The z-score of one element of a group (spec 4.5): the element minus the group mean,
  divided by the population standard deviation (divisor the group size).
\<close>

definition zscore_row :: "real list \<Rightarrow> nat \<Rightarrow> real" where
  "zscore_row row j =
     (let mu = sum_list row / real (length row);
          sigma = sqrt (sum_list (map (\<lambda>x. (x - mu) ^ 2) row) / real (length row))
      in (row ! j - mu) / sigma)"

section \<open>Lemmas\<close>

lemma method_lookup_name [simp]: "method_lookup (method_name m) = Some m"
  by (cases m) (simp_all add: method_lookup_def method_table_def)

lemma method_lookup_SomeD: "method_lookup s = Some m \<Longrightarrow> s = method_name m"
  by (auto simp: method_lookup_def method_table_def split: if_splits)

lemma requires_q_iff: "method_name m \<in> set requires_q \<longleftrightarrow> needs_parameter m"
  by (cases m) (simp_all add: requires_q_def)

lemma noreduction_iff: "method_name m \<in> set noreduction \<longleftrightarrow> is_elementwise m"
  by (cases m) (simp_all add: noreduction_def is_elementwise_def)

lemma elementwise_no_parameter: "is_elementwise m \<Longrightarrow> \<not> needs_parameter m"
  by (auto simp: is_elementwise_def)

text \<open>A kernel call on a row matrix whose buffer is the concatenation of its rows.\<close>

lemma numba_call_rows:
  assumes "\<forall>xs \<in> set xss. length xs = n"
  shows "numba_call K m q \<lparr>shape = [length xss, n], buf = concat xss\<rparr> =
           (if is_elementwise m
            then \<lparr>shape = [length xss, n], buf = concat (map (\<lambda>row. map (kelem K m row) [0..<n]) xss)\<rparr>
            else \<lparr>shape = [length xss], buf = map (kred K m q) xss\<rparr>)"
  using rows_of_concat_const[OF assms] by (simp add: numba_call_def row_slices_def Let_def)

lemma shape_numba_call_elementwise:
  "is_elementwise m \<Longrightarrow> shape (numba_call K m q d) = [shape d ! 0, shape d ! 1]"
  by (simp add: numba_call_def Let_def)

text \<open>
  C11: the dictionary \<open>_method_lookup\<close> finds a kernel exactly under its own name:
  looking up a string succeeds with kernel \<open>m\<close> if and only if the string is the
  name of \<open>m\<close>, so no two names share a kernel and every kernel is reachable.
\<close>

theorem method_lookup_iff: "method_lookup s = Some m \<longleftrightarrow> s = method_name m"
  using method_lookup_SomeD by auto

end
