(* ===== verification/MoveAxis.thy ===== *)
theory MoveAxis
  imports NDArray
begin

text \<open>
  What numpy's \<open>moveaxis\<close> does to an array beyond the trailing case of \<open>NDArray\<close>:
  it transposes by a permutation of the axes (\<open>axis_perm\<close>), so it keeps the size,
  and moving the trailing axes of an array to \<open>xs\<close> succeeds exactly when \<open>xs\<close> is a
  valid axis tuple for it. \<open>Faststat\<close> uses both for the way back of the z-score
  (line 110).
\<close>

definition axis_perm :: "nat \<Rightarrow> nat list \<Rightarrow> bool" where
  "axis_perm n p \<longleftrightarrow> distinct p \<and> set p = {..<n} \<and> length p = n"

section \<open>Lemmas: axis permutations\<close>

lemma axis_perm_mset: "mset p = mset [0..<n] \<Longrightarrow> axis_perm n p"
proof -
  assume m: "mset p = mset [0..<n]"
  have "distinct p" using m by (metis distinct_upt mset_eq_imp_distinct_iff)
  moreover have "set p = {..<n}" using m by (metis atLeast0LessThan set_mset_mset set_upt)
  moreover have "length p = n" using m by (metis length_upt minus_nat.diff_0 size_mset)
  ultimately show ?thesis by (simp add: axis_perm_def)
qed

lemma prod_list_perm: "axis_perm (length sh) p \<Longrightarrow> prod_list (map ((!) (sh :: shape)) p) = prod_list sh"
proof -
  assume p: "axis_perm (length sh) p"
  have m: "mset p = mset [0..<length sh]"
    using p by (intro set_eq_iff_mset_eq_distinct[THEN iffD1]) (simp_all add: axis_perm_def atLeast0LessThan)
  have "prod_list (map ((!) sh) p) = prod_mset (mset (map ((!) sh) p))"
    by (rule prod_mset_prod_list[symmetric])
  also have "\<dots> = prod_mset (mset (map ((!) sh) [0..<length sh]))" using m by simp
  also have "\<dots> = prod_list sh" by (simp only: prod_mset_prod_list map_nth)
  finally show ?thesis .
qed

section \<open>Lemmas: the order moveaxis computes\<close>

lemma mset_list_insert [simp]: "mset (list_insert i x ys) = add_mset x (mset ys)"
  by (induction i x ys rule: list_insert.induct) simp_all

lemma mset_foldl_insert:
  "mset (foldl (\<lambda>order (d, s). list_insert d s order) b ps) = mset b + mset (map snd ps)"
  by (induction ps arbitrary: b) auto

lemma moveaxis_order_mset:
  "distinct src \<Longrightarrow> set src \<subseteq> {..<n} \<Longrightarrow> length dst = length src \<Longrightarrow>
   mset (moveaxis_order n src dst) = mset [0..<n]"
proof -
  assume d: "distinct src" and s: "set src \<subseteq> {..<n}" and l: "length dst = length src"
  have "mset (map snd (sort (zip dst src))) = mset (map snd (zip dst src))"
    by (simp only: mset_map mset_sort)
  then have sn: "mset (map snd (sort (zip dst src))) = mset src" by (simp only: map_snd_zip[OF l])
  have "set src = set (filter (\<lambda>k. k \<in> set src) [0..<n])" using s by auto
  then have se: "mset src = mset (filter (\<lambda>k. k \<in> set src) [0..<n])"
    using d by (intro set_eq_iff_mset_eq_distinct[THEN iffD1]) simp_all
  have part: "mset [0..<n] = filter_mset (\<lambda>k. k \<in> set src) (mset [0..<n])
                              + filter_mset (\<lambda>k. k \<notin> set src) (mset [0..<n])"
    by (rule multiset_partition)
  have "mset (filter (\<lambda>k. k \<notin> set src) [0..<n]) + mset src
        = mset (filter (\<lambda>k. k \<in> set src) [0..<n]) + mset (filter (\<lambda>k. k \<notin> set src) [0..<n])"
    using se by (simp only: add.commute)
  also have "\<dots> = mset [0..<n]" by (simp only: mset_filter part[symmetric])
  finally show ?thesis using sn by (simp only: moveaxis_order_def mset_foldl_insert)
qed

text \<open>\<open>moveaxis\<close> only permutes the axes: the size of the array is kept.\<close>

lemma moveaxis_prod: "moveaxis a src dst = Inr r \<Longrightarrow> prod_list (shape r) = prod_list (shape a)"
proof -
  assume mv: "moveaxis a src dst = Inr r"
  then obtain s d where s: "normalize_axis_tuple (ndim a) src = Inr s"
    and d: "normalize_axis_tuple (ndim a) dst = Inr d" and l: "length s = length d"
    and r: "r = transpose a (moveaxis_order (ndim a) s d)"
    by (auto simp: moveaxis_def rbind_eq_Inr split: if_splits)
  have "axis_perm (length (shape a)) (moveaxis_order (ndim a) s d)"
    using normalize_axis_tuple_Inr[OF s] l
    by (intro axis_perm_mset) (simp add: moveaxis_order_mset ndim_def)
  then show ?thesis using r by (simp add: prod_list_perm)
qed

lemma distinct_nat_py_axis:
  "list_all (axis_in_range n) xs \<Longrightarrow>
   distinct (map (\<lambda>x. nat (py_axis n x)) xs) = distinct (map (py_axis n) xs)"
proof -
  assume all: "list_all (axis_in_range n) xs"
  have "\<forall>y \<in> set (map (py_axis n) xs). 0 \<le> y" using all py_axis_bounds by (auto simp: list_all_iff)
  then have "inj_on nat (set (map (py_axis n) xs))" by (auto simp: inj_on_def eq_nat_nat_iff)
  then have "distinct (map nat (map (py_axis n) xs)) = distinct (map (py_axis n) xs)"
    by (simp only: distinct_map[of nat] simp_thms)
  moreover have "map (\<lambda>x. nat (py_axis n x)) xs = map nat (map (py_axis n) xs)" by simp
  ultimately show ?thesis by (simp only:)
qed

text \<open>
  Moving the trailing axes of an array to \<open>xs\<close> succeeds exactly when \<open>xs\<close> is a valid
  axis tuple for the array: all in range and distinct.
\<close>

lemma moveaxis_trailing_target_iff:
  "(\<exists>b. moveaxis r [- int (length xs)..-1] xs = Inr b) \<longleftrightarrow>
     list_all (axis_in_range (ndim r)) xs \<and> distinct (map (py_axis (ndim r)) xs)"
proof
  assume b: "\<exists>b. moveaxis r [- int (length xs)..-1] xs = Inr b"
  obtain d where "normalize_axis_tuple (ndim r) xs = Inr d"
  proof (cases "normalize_axis_tuple (ndim r) xs")
    case (Inl e)
    then have "\<forall>b. moveaxis r [- int (length xs)..-1] xs \<noteq> Inr b"
      by (simp add: moveaxis_def rbind_def split: sum.split)
    with b show ?thesis by simp
  qed
  then have "list_all (axis_in_range (ndim r)) xs" "distinct (map (\<lambda>x. nat (py_axis (ndim r) x)) xs)"
    by (simp_all add: normalize_axis_tuple_eq split: if_splits)
  then show "list_all (axis_in_range (ndim r)) xs \<and> distinct (map (py_axis (ndim r)) xs)"
    by (simp add: distinct_nat_py_axis)
next
  assume ok: "list_all (axis_in_range (ndim r)) xs \<and> distinct (map (py_axis (ndim r)) xs)"
  then have n: "normalize_axis_tuple (ndim r) xs = Inr (map (\<lambda>x. nat (py_axis (ndim r) x)) xs)"
    by (simp add: normalize_axis_tuple_eq distinct_nat_py_axis)
  from normalize_axis_tuple_Inr[OF this]
  have "length xs \<le> ndim r" by (metis card_mono card_lessThan distinct_card finite_lessThan)
  then show "\<exists>b. moveaxis r [- int (length xs)..-1] xs = Inr b"
    using n by (simp add: moveaxis_def trailing_axes)
qed

end
