(* ===== verification/Faststat.thy ===== *)
theory Faststat
  imports Kernels MoveAxis
begin

text \<open>
  The reduction engine, \<open>faststat\<close> of \<open>_old_faststats/faststats.py\<close> (lines 63-114),
  and the public wrappers of lines 120-193. \<open>faststat\<close> checks its input, sends the
  reduction over every axis to numpy, and otherwise moves the reduced axes to the back,
  reshapes to \<open>(-1, num_reduce)\<close>, runs the kernel on the rows and reshapes the result:
  to the input's shape after moving the axes back for the elementwise kernels, to
  \<open>_get_result_shape\<close> for the others.
\<close>

text \<open>The \<open>data\<close> argument: a numpy array or any other Python value.\<close>

datatype 'v py_input = NDArr "'v ndarray" | NotAnArray

definition faststat ::
  "('v, 'q) kernels \<Rightarrow> 'v py_input \<Rightarrow> string \<Rightarrow> axis_arg \<Rightarrow> bool \<Rightarrow> 'q option \<Rightarrow> 'v ndarray result" where
  "faststat K data method axis keepdims q =
     (case data of
        NotAnArray \<Rightarrow> Inl TypeError
      | NDArr a \<Rightarrow>
          if \<not> check_axis axis (ndim a) then Inl ValueError
          else if numpy_fallback axis (ndim a)
          then numpy_call K method a (if method \<in> set requires_q then q else None)
          else (case method_lookup method of
                  None \<Rightarrow> Inl ValueError
                | Some m \<Rightarrow>
                    if method \<in> set requires_q \<and> q = None then Inl AssertionError
                    else
                      (let use_q = method \<in> set requires_q;
                           data_shape = shape a;
                           nr = num_reduce data_shape axis;
                           target = move_target axis
                       in rbind (moveaxis a (axis_list axis) target) (\<lambda>moved.
                          rbind (reshape moved [-1, int nr]) (\<lambda>rows.
                          let result = numba_call K m (if use_q then q else None) rows
                          in if method \<in> set noreduction
                             then rbind (moveaxis result target (axis_list axis)) (\<lambda>back.
                                    reshape back (map int data_shape))
                             else reshape result (map int (get_result_shape data_shape axis keepdims)))))))"

text \<open>
  The wrappers: the fourteen statistics without parameter call \<open>faststat\<close> with
  \<open>q = None\<close>; \<open>percentile\<close> and \<open>nanpercentile\<close> first run
  \<open>_percentile_is_valid(q)\<close>, \<open>quantile\<close> and \<open>nanquantile\<close>
  \<open>_quantile_is_valid(q)\<close> (not among the sources; per spec 4.4 the range checks
  \<open>[0, 100]\<close> and \<open>[0, 1]\<close>, raising \<open>ValueError\<close>). Lines 133, 138, 143 and 148
  call the helper as a statement and discard its value, so only its raising can stop
  the call: the helpers are modelled as procedures that return nothing or raise. Were
  they boolean predicates, the check would have no effect.
\<close>

definition plain_wrappers :: "string list" where
  "plain_wrappers =
     [''sum'', ''nansum'', ''ptp'', ''median'', ''average'', ''mean'', ''std'', ''var'',
      ''nanmedian'', ''nanmean'', ''nanstd'', ''nanvar'', ''zscore'', ''nan_zscore'']"

definition percentile_is_valid :: "real \<Rightarrow> unit result" where
  "percentile_is_valid q = (if 0 \<le> q \<and> q \<le> 100 then Inr () else Inl ValueError)"

definition quantile_is_valid :: "real \<Rightarrow> unit result" where
  "quantile_is_valid q = (if 0 \<le> q \<and> q \<le> 1 then Inr () else Inl ValueError)"

definition reduce_wrapper ::
  "('v, real) kernels \<Rightarrow> string \<Rightarrow> 'v py_input \<Rightarrow> axis_arg \<Rightarrow> bool \<Rightarrow> 'v ndarray result" where
  "reduce_wrapper K name data axis keepdims = faststat K data name axis keepdims None"

definition q_wrapper ::
  "('v, real) kernels \<Rightarrow> string \<Rightarrow> 'v py_input \<Rightarrow> real \<Rightarrow> axis_arg \<Rightarrow> bool \<Rightarrow> 'v ndarray result" where
  "q_wrapper K name data q axis keepdims =
     rbind (if name \<in> {''percentile'', ''nanpercentile''} then percentile_is_valid q else quantile_is_valid q)
       (\<lambda>_. faststat K data name axis keepdims (Some q))"

section \<open>Lemmas: the repacking and the kernel call\<close>

text \<open>
  After \<open>moveaxis\<close> to the trailing positions and \<open>reshape(-1, num_reduce)\<close>, the array
  is the row matrix whose rows are the groups of the reference semantics, in the
  row-major order of the kept indices (spec 4.3).
\<close>

lemma repack_rows:
  assumes ck: "check_axis ax (ndim a)" and nn: "ax \<noteq> AxisNone" and pos: "0 < num_reduce (shape a) ax"
  defines "red \<equiv> reduce_axes ax (ndim a)"
  shows "rbind (moveaxis a (axis_list ax) (move_target ax))
           (\<lambda>moved. reshape moved [-1, int (num_reduce (shape a) ax)])
         = Inr \<lparr>shape = [prod_list (keep_shape (shape a) red), num_reduce (shape a) ax],
                buf = concat (map (group a red) (indices (keep_shape (shape a) red)))\<rparr>"
proof -
  have mv: "moveaxis a (axis_list ax) (move_target ax) = Inr (transpose a (keep_axes_of (ndim a) red @ red))"
    using moveaxis_trailing[OF check_axis_normalize[OF ck nn]] move_target_eq[OF nn] by (simp add: red_def)
  have nr: "num_reduce (shape a) ax = prod_list (map ((!) (shape a)) red)"
    using num_reduce_eq[OF nn] by (simp add: red_def ndim_def)
  have len: "length (concat (map (group a red) (indices (keep_shape (shape a) red))))
             = prod_list (keep_shape (shape a) red) * num_reduce (shape a) ax"
    by (subst length_concat_const[where n = "num_reduce (shape a) ax"]) (simp_all add: nr)
  show ?thesis
    using mv reshape_rows[OF _ pos, of "transpose a (keep_axes_of (ndim a) red @ red)"] len
    by (simp add: buf_transpose_group)
qed

text \<open>The reducing path of \<open>faststat\<close>, with the groups the kernel receives.\<close>

lemma faststat_reduce_groups:
  assumes ck: "check_axis axis (ndim a)" and nn: "axis \<noteq> AxisNone"
    and lk: "method_lookup method = Some m" and red: "\<not> is_elementwise m"
    and qok: "needs_parameter m \<Longrightarrow> q \<noteq> None"
    and pos: "0 < num_reduce (shape a) axis"
  shows "faststat K (NDArr a) method axis keepdims q =
           Inr \<lparr>shape = get_result_shape (shape a) axis keepdims,
                buf = map (\<lambda>k. kred K m (if needs_parameter m then q else None)
                                  (group a (reduce_axes axis (ndim a)) k))
                        (indices (keep_shape (shape a) (reduce_axes axis (ndim a))))\<rparr>"
proof -
  let ?red = "reduce_axes axis (ndim a)"
  let ?ks = "indices (keep_shape (shape a) ?red)"
  let ?q = "if needs_parameter m then q else None"
  have mn: "method = method_name m" using lk by (rule method_lookup_SomeD)
  have rows: "numba_call K m ?q \<lparr>shape = [prod_list (keep_shape (shape a) ?red), num_reduce (shape a) axis],
                                    buf = concat (map (group a ?red) ?ks)\<rparr>
              = \<lparr>shape = [length ?ks], buf = map (kred K m ?q) (map (group a ?red) ?ks)\<rparr>"
    using numba_call_rows[of "map (group a ?red) ?ks" "num_reduce (shape a) axis" K m ?q] red
      num_reduce_eq[OF nn] by (simp add: ndim_def)
  have rs: "reshape \<lparr>shape = [length ?ks], buf = map (kred K m ?q) (map (group a ?red) ?ks)\<rparr>
              (map int (get_result_shape (shape a) axis keepdims))
            = Inr \<lparr>shape = get_result_shape (shape a) axis keepdims,
                   buf = map (kred K m ?q) (map (group a ?red) ?ks)\<rparr>"
    using reshape_exact[of "get_result_shape (shape a) axis keepdims"
        "\<lparr>shape = [length ?ks], buf = map (kred K m ?q) (map (group a ?red) ?ks)\<rparr>"]
    by (simp add: get_result_shape_def prod_result_shape ndim_def)
  have "faststat K (NDArr a) method axis keepdims q =
          rbind (moveaxis a (axis_list axis) (move_target axis)) (\<lambda>moved.
          rbind (reshape moved [-1, int (num_reduce (shape a) axis)]) (\<lambda>rows.
            reshape (numba_call K m ?q rows) (map int (get_result_shape (shape a) axis keepdims))))"
    using qok red
    by (simp add: faststat_def nn numpy_fallback_def ck lk mn requires_q_iff noreduction_iff Let_def) blast
  also have "\<dots> = rbind (rbind (moveaxis a (axis_list axis) (move_target axis))
                       (\<lambda>moved. reshape moved [-1, int (num_reduce (shape a) axis)]))
              (\<lambda>rows. reshape (numba_call K m ?q rows) (map int (get_result_shape (shape a) axis keepdims)))"
    by (simp add: rbind_assoc)
  finally show ?thesis
    using repack_rows[OF ck nn pos] rows rs by (simp add: comp_def)
qed

text \<open>The same, with each group enumerated over the reduced axes in increasing order.\<close>

lemma faststat_reduce_sorted:
  assumes "check_axis axis (ndim a)" "axis \<noteq> AxisNone"
    and "method_lookup method = Some m" "\<not> is_elementwise m"
    and "needs_parameter m \<Longrightarrow> q \<noteq> None"
    and "0 < num_reduce (shape a) axis"
    and "perm_invariant (kred K m (if needs_parameter m then q else None))"
  shows "faststat K (NDArr a) method axis keepdims q =
           Inr \<lparr>shape = get_result_shape (shape a) axis keepdims,
                buf = map (\<lambda>k. kred K m (if needs_parameter m then q else None)
                                  (group a (sort (reduce_axes axis (ndim a))) k))
                        (indices (keep_shape (shape a) (reduce_axes axis (ndim a))))\<rparr>"
proof -
  have v: "distinct (reduce_axes axis (ndim a))" "set (reduce_axes axis (ndim a)) \<subseteq> {..<ndim a}"
    using reduce_axes_valid[OF assms(1,2)] by auto
  show ?thesis
    using faststat_reduce_groups[OF assms(1-6)] group_sort_invariant[OF assms(7) v]
    by (simp cong: map_cong)
qed

lemma faststat_elementwise_unfold:
  assumes "check_axis axis (ndim a)" "axis \<noteq> AxisNone"
    and "method_lookup method = Some m" "is_elementwise m"
  shows "faststat K (NDArr a) method axis keepdims q =
           rbind (rbind (moveaxis a (axis_list axis) (move_target axis))
                        (\<lambda>moved. reshape moved [-1, int (num_reduce (shape a) axis)]))
             (\<lambda>rows. rbind (moveaxis (numba_call K m None rows) (move_target axis) (axis_list axis))
                        (\<lambda>back. reshape back (map int (shape a))))"
proof -
  have mn: "method = method_name m" using assms(3) by (rule method_lookup_SomeD)
  show ?thesis
    using elementwise_no_parameter[OF assms(4)] assms(4)
    by (simp add: faststat_def assms(1-3) numpy_fallback_def mn requires_q_iff noreduction_iff Let_def rbind_assoc)
qed

lemma moveaxis_2d_back:
  "wf_arr R \<Longrightarrow> length (shape R) = 2 \<Longrightarrow> py_axis 2 ax = 1 \<Longrightarrow> moveaxis R [-1] [ax] = Inr R"
proof -
  assume wf: "wf_arr R" and l: "length (shape R) = 2" and ax: "py_axis 2 ax = 1"
  then have "axis_in_range 2 ax" by (auto simp: py_axis_def axis_in_range_def split: if_splits)
  then have "moveaxis R [-1] [ax] = Inr (transpose R [0..<ndim R])"
    using l ax by (simp add: moveaxis_def ndim_def normalize_axis_tuple_eq axis_in_range_def py_axis_def
                    moveaxis_order_def upt_rec)
  then show ?thesis using transpose_id[OF wf] by simp
qed

text \<open>
  The elementwise path for one axis \<open>ax\<close> with \<open>py_axis 2 ax = 1\<close>: the row matrix is
  moved back with \<open>np.moveaxis(result, -1, ax)\<close>, which on the two-dimensional result
  is the identity, and reshaped to the input's shape. So the output buffer is the
  z-scores of the groups, one group after another, whatever axis was reduced.
\<close>

lemma faststat_elementwise_moved_layout:
  assumes lk: "method_lookup method = Some m" and ew: "is_elementwise m"
    and ck: "check_axis (AxisInt ax) (ndim a)" and bk: "py_axis 2 ax = 1"
    and pos: "0 < num_reduce (shape a) (AxisInt ax)"
  defines "r \<equiv> nat (py_axis (ndim a) ax)"
  shows "faststat K (NDArr a) method (AxisInt ax) keepdims q =
           Inr \<lparr>shape = shape a,
                buf = concat (map (\<lambda>k. map (kelem K m (group a [r] k)) [0..<shape a ! r])
                               (indices (keep_shape (shape a) [r])))\<rparr>"
proof -
  let ?d = "shape a ! r"
  let ?ks = "indices (keep_shape (shape a) [r])"
  let ?G = "map (group a [r]) ?ks"
  let ?R = "\<lparr>shape = [length ?ks, ?d], buf = concat (map (\<lambda>row. map (kelem K m row) [0..<?d]) ?G)\<rparr>"
  have red: "reduce_axes (AxisInt ax) (ndim a) = [r]"
    by (simp add: reduce_axes_def axis_list_def r_def)
  have rr: "r < ndim a" using ck py_axis_bounds[of "ndim a" ax] by (simp add: check_axis_def r_def nat_less_iff)
  have nr: "num_reduce (shape a) (AxisInt ax) = ?d"
    by (simp add: num_reduce_def r_def ndim_def)
  have rep: "rbind (moveaxis a (axis_list (AxisInt ax)) (move_target (AxisInt ax)))
               (\<lambda>moved. reshape moved [-1, int (num_reduce (shape a) (AxisInt ax))])
             = Inr \<lparr>shape = [length ?ks, ?d], buf = concat ?G\<rparr>"
    using repack_rows[OF ck _ pos] by (simp add: red nr)
  have call: "numba_call K m None \<lparr>shape = [length ?ks, ?d], buf = concat ?G\<rparr> = ?R"
    using numba_call_rows[of ?G ?d K m None] ew by (simp add: nr)
  have lenR: "length (buf ?R) = length ?ks * ?d"
  proof -
    have "\<forall>xs \<in> set (map (\<lambda>row. map (kelem K m row) [0..<?d]) ?G). length xs = ?d" by simp
    from length_concat_const[OF this] show ?thesis by simp
  qed
  have wfR: "wf_arr ?R" using lenR by (simp add: wf_arr_def)
  have mvback: "moveaxis ?R [-1] [ax] = Inr ?R"
    by (rule moveaxis_2d_back[OF wfR _ bk]) simp
  have shp: "prod_list (shape a) = length ?ks * ?d"
    using prod_keep_red[of "[r]" "shape a"] rr by (simp add: ndim_def)
  have fin: "reshape ?R (map int (shape a)) = Inr \<lparr>shape = shape a, buf = buf ?R\<rparr>"
    using reshape_exact[of "shape a" ?R] shp lenR by simp
  have "faststat K (NDArr a) method (AxisInt ax) keepdims q =
          rbind (rbind (moveaxis a (axis_list (AxisInt ax)) (move_target (AxisInt ax)))
                   (\<lambda>moved. reshape moved [-1, int (num_reduce (shape a) (AxisInt ax))]))
            (\<lambda>rows. rbind (moveaxis (numba_call K m None rows) [-1] [ax])
                       (\<lambda>b. reshape b (map int (shape a))))"
    using faststat_elementwise_unfold[OF ck _ lk ew] by (simp add: move_target_def axis_list_def)
  also have "\<dots> = Inr \<lparr>shape = shape a, buf = buf ?R\<rparr>"
    by (simp only: rep rbind_Inr call mvback fin)
  finally show ?thesis by (simp add: comp_def)
qed

section \<open>The reduction engine: correctness\<close>

text \<open>
  C1: refinement of the reference semantics. For a checked axis argument other than
  \<open>None\<close>, a known reducing method given its \<open>q\<close> when it needs one, a non-empty
  reduction and a statistic that depends only on the multiset of its group,
  \<open>faststat\<close> returns exactly the reference reduction over the normalised axes: one
  value per kept index, in the result shape of \<open>_get_result_shape\<close>.
\<close>

theorem faststat_refines_reference:
  assumes "check_axis axis (ndim a)" "axis \<noteq> AxisNone"
    and "method_lookup method = Some m" "\<not> is_elementwise m"
    and "needs_parameter m \<Longrightarrow> q \<noteq> None"
    and "0 < num_reduce (shape a) axis"
    and "perm_invariant (kred K m (if needs_parameter m then q else None))"
  shows "faststat K (NDArr a) method axis keepdims q =
           Inr (reduce_ref (kred K m (if needs_parameter m then q else None)) a
                  (reduce_axes axis (ndim a)) keepdims)"
  using faststat_reduce_sorted[OF assms]
  by (simp add: reduce_ref_def get_result_shape_def ndim_def)

text \<open>
  C2: shape correctness (spec 8). On the reducing path the result is a well-formed
  array (buffer length the product of the shape) whose shape is
  \<open>_get_result_shape(data.shape, axis, keepdims)\<close>, for any statistic.
\<close>

theorem faststat_result_shape:
  assumes "check_axis axis (ndim a)" "axis \<noteq> AxisNone"
    and "method_lookup method = Some m" "\<not> is_elementwise m"
    and "needs_parameter m \<Longrightarrow> q \<noteq> None"
    and "0 < num_reduce (shape a) axis"
  shows "\<exists>r. faststat K (NDArr a) method axis keepdims q = Inr r \<and> wf_arr r
            \<and> shape r = get_result_shape (shape a) axis keepdims"
proof -
  have "prod_list (get_result_shape (shape a) axis keepdims) =
          prod_list (keep_shape (shape a) (reduce_axes axis (ndim a)))"
    by (simp add: get_result_shape_def prod_result_shape ndim_def)
  then show ?thesis
    using faststat_reduce_groups[OF assms] by (simp add: wf_arr_def)
qed

text \<open>
  C3: axis order invariance (spec 8). Two axis sequences that normalise to the same
  axes in another order give the same result, for a statistic that depends only on
  the multiset of its group.
\<close>

theorem faststat_axis_order_invariant:
  assumes ca: "check_axis (AxisSeq as) (ndim a)" and cb: "check_axis (AxisSeq bs) (ndim a)"
    and perm: "mset (map (py_axis (ndim a)) as) = mset (map (py_axis (ndim a)) bs)"
    and lk: "method_lookup method = Some m" and nr: "\<not> is_elementwise m"
    and qok: "needs_parameter m \<Longrightarrow> q \<noteq> None"
    and pos: "0 < num_reduce (shape a) (AxisSeq as)"
    and inv: "perm_invariant (kred K m (if needs_parameter m then q else None))"
  shows "faststat K (NDArr a) method (AxisSeq as) keepdims q =
         faststat K (NDArr a) method (AxisSeq bs) keepdims q"
proof -
  let ?ra = "reduce_axes (AxisSeq as) (ndim a)" and ?rb = "reduce_axes (AxisSeq bs) (ndim a)"
  have m: "mset ?ra = mset ?rb"
  proof -
    have "mset (map nat (map (py_axis (ndim a)) as)) = mset (map nat (map (py_axis (ndim a)) bs))"
      using perm by (simp only: mset_map)
    then show ?thesis by (simp add: reduce_axes_def axis_list_def comp_def)
  qed
  have posb: "0 < num_reduce (shape a) (AxisSeq bs)"
    using pos num_reduce_mset[of "AxisSeq as" "AxisSeq bs" "shape a"] m by (simp add: ndim_def)
  have s: "set ?ra = set ?rb" using m by (metis set_mset_mset)
  have ks: "keep_shape (shape a) ?ra = keep_shape (shape a) ?rb"
    using keep_axes_of_cong[OF s] by (simp add: keep_shape_def)
  have rs: "get_result_shape (shape a) (AxisSeq as) keepdims = get_result_shape (shape a) (AxisSeq bs) keepdims"
    using keep_axes_of_cong[OF s] s by (simp add: get_result_shape_def result_shape_def keep_shape_def ndim_def)
  have A: "faststat K (NDArr a) method (AxisSeq as) keepdims q =
           Inr \<lparr>shape = get_result_shape (shape a) (AxisSeq as) keepdims,
                buf = map (\<lambda>k. kred K m (if needs_parameter m then q else None) (group a (sort ?ra) k))
                        (indices (keep_shape (shape a) ?ra))\<rparr>"
    by (rule faststat_reduce_sorted[OF ca _ lk nr qok pos inv]) simp
  have B: "faststat K (NDArr a) method (AxisSeq bs) keepdims q =
           Inr \<lparr>shape = get_result_shape (shape a) (AxisSeq bs) keepdims,
                buf = map (\<lambda>k. kred K m (if needs_parameter m then q else None) (group a (sort ?rb) k))
                        (indices (keep_shape (shape a) ?rb))\<rparr>"
    by (rule faststat_reduce_sorted[OF cb _ lk nr qok posb inv]) simp
  show ?thesis
    unfolding A B sort_eq_mset[OF m] ks rs ..
qed

section \<open>The elementwise path (z-score)\<close>

text \<open>
  C4: z-score along the last axis, \<open>axis=-1\<close>, is the reference elementwise statistic:
  every element is replaced by the kernel's value for its own group and its position
  in the group, and the result has the input's shape.
\<close>

theorem faststat_elementwise_last_axis:
  assumes lk: "method_lookup method = Some m" and ew: "is_elementwise m"
    and n1: "0 < ndim a" and pos: "0 < num_reduce (shape a) (AxisInt (-1))"
  shows "faststat K (NDArr a) method (AxisInt (-1)) keepdims q =
           Inr (elementwise_ref (kelem K m) a [ndim a - 1])"
proof -
  obtain p where p: "ndim a = Suc p" using n1 by (cases "ndim a") auto
  have ck: "check_axis (AxisInt (-1)) (ndim a)" using p by (simp add: check_axis_def axis_in_range_def)
  have r: "nat (py_axis (ndim a) (-1)) = p" using p by (simp add: py_axis_def)
  have "faststat K (NDArr a) method (AxisInt (-1)) keepdims q =
          Inr \<lparr>shape = shape a,
               buf = concat (map (\<lambda>k. map (kelem K m (group a [nat (py_axis (ndim a) (-1))] k))
                                          [0..<shape a ! nat (py_axis (ndim a) (-1))])
                              (indices (keep_shape (shape a) [nat (py_axis (ndim a) (-1))])))\<rparr>"
    by (rule faststat_elementwise_moved_layout[OF lk ew ck _ pos]) (simp add: py_axis_def)
  also have "\<dots> = Inr (elementwise_ref (kelem K m) a [p])"
    using elementwise_ref_last[OF p, of "kelem K m"]
    by (simp add: r ndarray.equality elementwise_ref_def Let_def)
  finally have "faststat K (NDArr a) method (AxisInt (-1)) keepdims q = Inr (elementwise_ref (kelem K m) a [p])" .
  then show ?thesis using p by simp
qed

text \<open>
  C6: z-score over a non-negative axis number \<open>ax \<ge> 2\<close> fails. Line 110 moves the
  axis back with \<open>np.moveaxis(result, target, axis)\<close>, but \<open>result\<close> is the
  two-dimensional row matrix, on which axis \<open>ax\<close> does not exist: numpy raises
  \<open>AxisError\<close> although the axis is valid for the input.
\<close>

theorem faststat_elementwise_axis_error:
  assumes "method_lookup method = Some m" "is_elementwise m"
    and "2 \<le> ax" "ax < int (ndim a)" "0 < num_reduce (shape a) (AxisInt ax)"
  shows "faststat K (NDArr a) method (AxisInt ax) keepdims q = Inl AxisError"
proof -
  have ck: "check_axis (AxisInt ax) (ndim a)"
    using assms(3,4) by (simp add: check_axis_def axis_in_range_def)
  have err: "moveaxis (numba_call K m None r) [-1] [ax] = Inl AxisError" for r
    using assms(3)
    by (simp add: moveaxis_def ndim_def normalize_axis_tuple_eq axis_in_range_def
        shape_numba_call_elementwise[OF assms(2)])
  obtain X where "rbind (moveaxis a (axis_list (AxisInt ax)) (move_target (AxisInt ax)))
      (\<lambda>moved. reshape moved [-1, int (num_reduce (shape a) (AxisInt ax))]) = Inr X"
    using repack_rows[OF ck _ assms(5)] by simp
  then have "faststat K (NDArr a) method (AxisInt ax) keepdims q =
               rbind (moveaxis (numba_call K m None X) [-1] [ax]) (\<lambda>back. reshape back (map int (shape a)))"
    using faststat_elementwise_unfold[OF ck _ assms(1,2)] by (simp add: move_target_def axis_list_def)
  then show ?thesis by (simp add: err)
qed

lemma moveaxis_dst_AxisError:
  assumes "\<not> list_all (axis_in_range (ndim R)) dst"
    and "normalize_axis_tuple (ndim R) src \<noteq> Inl ValueError"
  shows "moveaxis R src dst = Inl AxisError"
  using assms by (auto simp: moveaxis_def normalize_axis_tuple_eq split: if_splits)

lemma trailing_target_no_ValueError: "normalize_axis_tuple n [- int k..-1] \<noteq> Inl ValueError"
proof (cases "k \<le> n")
  case True
  then show ?thesis by (simp add: trailing_axes)
next
  case False
  then have "\<not> axis_in_range n (- int k)" by (simp add: axis_in_range_def)
  moreover have "- int k \<in> set [- int k..-1]" using False by simp
  ultimately show ?thesis by (auto simp: normalize_axis_tuple_eq list_all_iff)
qed

text \<open>
  C19: the same for a sequence of axes: z-score over \<open>axis=(a0, a1, ...)\<close> with some
  non-negative axis number \<open>\<ge> 2\<close> raises \<open>AxisError\<close>, since line 110 moves the
  trailing axes of the two-dimensional row matrix back to those axis numbers.
\<close>

theorem faststat_elementwise_seq_axis_error:
  assumes lk: "method_lookup method = Some m" and ew: "is_elementwise m"
    and ck: "check_axis (AxisSeq as) (ndim a)" and pos: "0 < num_reduce (shape a) (AxisSeq as)"
    and big: "\<exists>x \<in> set as. 2 \<le> x"
  shows "faststat K (NDArr a) method (AxisSeq as) keepdims q = Inl AxisError"
proof -
  have err: "moveaxis (numba_call K m None r) [- int (length as)..-1] as = Inl AxisError" for r
  proof (rule moveaxis_dst_AxisError)
    show "\<not> list_all (axis_in_range (ndim (numba_call K m None r))) as"
      using big by (force simp: list_all_iff axis_in_range_def ndim_def shape_numba_call_elementwise[OF ew])
    show "normalize_axis_tuple (ndim (numba_call K m None r)) [- int (length as)..-1] \<noteq> Inl ValueError"
      by (rule trailing_target_no_ValueError)
  qed
  obtain X where "rbind (moveaxis a (axis_list (AxisSeq as)) (move_target (AxisSeq as)))
      (\<lambda>moved. reshape moved [-1, int (num_reduce (shape a) (AxisSeq as))]) = Inr X"
    using repack_rows[OF ck _ pos] by simp
  then have "faststat K (NDArr a) method (AxisSeq as) keepdims q =
               rbind (moveaxis (numba_call K m None X) [- int (length as)..-1] as)
                 (\<lambda>back. reshape back (map int (shape a)))"
    using faststat_elementwise_unfold[OF ck _ lk ew] by (simp add: move_target_def axis_list_def)
  then show ?thesis by (simp add: err)
qed

lemma check_axis_list:
  "axis \<noteq> AxisNone \<Longrightarrow> check_axis axis n \<Longrightarrow>
   check_axis axis k \<longleftrightarrow> list_all (axis_in_range k) (axis_list axis) \<and> distinct (map (py_axis k) (axis_list axis))"
  by (cases axis) (simp_all add: check_axis_def axis_list_def)

text \<open>
  The elementwise path up to the last \<open>moveaxis\<close>: the kernel's output is a
  two-dimensional array of the input's size, which line 110 moves back with
  \<open>np.moveaxis(result, target, axis)\<close> before the final reshape.
\<close>

lemma faststat_elementwise_back:
  assumes lk: "method_lookup method = Some m" and ew: "is_elementwise m"
    and ck: "check_axis axis (ndim a)" and nn: "axis \<noteq> AxisNone" and pos: "0 < num_reduce (shape a) axis"
  obtains R where "faststat K (NDArr a) method axis keepdims q =
                     rbind (moveaxis R (move_target axis) (axis_list axis)) (\<lambda>back. reshape back (map int (shape a)))"
    and "ndim R = 2" and "prod_list (shape R) = prod_list (shape a)"
proof -
  let ?red = "reduce_axes axis (ndim a)"
  let ?X = "\<lparr>shape = [prod_list (keep_shape (shape a) ?red), num_reduce (shape a) axis],
             buf = concat (map (group a ?red) (indices (keep_shape (shape a) ?red)))\<rparr>"
  let ?R = "numba_call K m None ?X"
  have fs: "faststat K (NDArr a) method axis keepdims q =
              rbind (moveaxis ?R (move_target axis) (axis_list axis)) (\<lambda>back. reshape back (map int (shape a)))"
    using faststat_elementwise_unfold[OF ck nn lk ew] repack_rows[OF ck nn pos] by simp
  have v: "distinct ?red" "set ?red \<subseteq> {..<length (shape a)}"
    using reduce_axes_valid[OF ck nn] by (simp_all add: ndim_def)
  have "prod_list (shape ?R) = prod_list (keep_shape (shape a) ?red) * num_reduce (shape a) axis"
    by (simp add: shape_numba_call_elementwise[OF ew])
  also have "\<dots> = prod_list (shape a)"
    using prod_keep_red[OF v] num_reduce_eq[OF nn] by (simp add: ndim_def)
  finally have "prod_list (shape ?R) = prod_list (shape a)" .
  moreover have "ndim ?R = 2" by (simp add: ndim_def shape_numba_call_elementwise[OF ew])
  ultimately show ?thesis using fs that by blast
qed

text \<open>
  C20: the z-score of \<open>faststat\<close> returns a value exactly when its axis argument would
  also be valid for a two-dimensional array: all axes in \<open>[-2, 2)\<close> and distinct
  modulo 2. Line 110 moves the axes back on the two-dimensional row matrix, so the
  validity of the axes for the input is not what decides.
\<close>

theorem faststat_elementwise_succeeds_iff:
  assumes lk: "method_lookup method = Some m" and ew: "is_elementwise m"
    and ck: "check_axis axis (ndim a)" and nn: "axis \<noteq> AxisNone" and pos: "0 < num_reduce (shape a) axis"
  shows "(\<exists>r. faststat K (NDArr a) method axis keepdims q = Inr r) \<longleftrightarrow> check_axis axis 2"
proof -
  obtain R where fs: "faststat K (NDArr a) method axis keepdims q =
                     rbind (moveaxis R (move_target axis) (axis_list axis)) (\<lambda>back. reshape back (map int (shape a)))"
    and n2: "ndim R = 2" and pR: "prod_list (shape R) = prod_list (shape a)"
    using faststat_elementwise_back[OF lk ew ck nn pos] by blast
  have tg: "move_target axis = [- int (length (axis_list axis))..-1]" by (rule move_target_eq[OF nn])
  have rs: "reshape b (map int (shape a)) = Inr \<lparr>shape = shape a, buf = buf b\<rparr>"
    if "moveaxis R (move_target axis) (axis_list axis) = Inr b" for b
  proof (rule reshape_exact)
    have "length (buf b) = prod_list (shape b)" using moveaxis_wf[OF that] by (simp add: wf_arr_def)
    then show "prod_list (shape a) = length (buf b)" using moveaxis_prod[OF that] pR by simp
  qed
  have "(\<exists>r. faststat K (NDArr a) method axis keepdims q = Inr r) \<longleftrightarrow>
          (\<exists>b. moveaxis R (move_target axis) (axis_list axis) = Inr b)"
    using fs rs by (auto simp: rbind_eq_Inr)
  also have "\<dots> \<longleftrightarrow> list_all (axis_in_range 2) (axis_list axis) \<and> distinct (map (py_axis 2) (axis_list axis))"
    using moveaxis_trailing_target_iff[of R "axis_list axis"] n2 tg by simp
  also have "\<dots> \<longleftrightarrow> check_axis axis 2" using check_axis_list[OF nn ck] by simp
  finally show ?thesis .
qed

section \<open>Errors and the paths around the kernels\<close>

text \<open>
  C7: a reduction over axes of total size zero is refused: \<open>reshape(-1, 0)\<close> cannot
  infer the row count, so numpy raises \<open>ValueError\<close> (spec 4.2 asks for a validation
  error).
\<close>

theorem faststat_zero_size_axis:
  assumes "check_axis axis (ndim a)" "axis \<noteq> AxisNone"
    and "method_lookup method = Some m" "needs_parameter m \<Longrightarrow> q \<noteq> None"
    and "num_reduce (shape a) axis = 0"
  shows "faststat K (NDArr a) method axis keepdims q = Inl ValueError"
proof -
  have mn: "method = method_name m" using assms(3) by (rule method_lookup_SomeD)
  obtain t where mv: "moveaxis a (axis_list axis) (move_target axis) = Inr t"
    using moveaxis_trailing[OF check_axis_normalize[OF assms(1,2)]] move_target_eq[OF assms(2)] by simp
  show ?thesis
    using assms(4)
    by (simp add: faststat_def assms(1-3,5) numpy_fallback_def mn requires_q_iff mv reshape_zero_row Let_def)
qed

text \<open>
  C8: the checks before any work, in the code's order: a non-array is a
  \<open>TypeError\<close>; an invalid axis a \<open>ValueError\<close>; past the fallback, an unknown method a
  \<open>ValueError\<close> (line 79), and a method of \<open>_requires_q\<close> without \<open>q\<close> an
  \<open>AssertionError\<close> (line 83).
\<close>

theorem faststat_input_errors:
  "faststat K NotAnArray method axis keepdims q = Inl TypeError
   \<and> (\<not> check_axis axis (ndim a) \<longrightarrow> faststat K (NDArr a) method axis keepdims q = Inl ValueError)
   \<and> (check_axis axis (ndim a) \<and> axis \<noteq> AxisNone \<and> method_lookup method = None
        \<longrightarrow> faststat K (NDArr a) method axis keepdims q = Inl ValueError)
   \<and> (check_axis axis (ndim a) \<and> axis \<noteq> AxisNone \<and> method_lookup method = Some m
        \<and> needs_parameter m \<and> q = None
        \<longrightarrow> faststat K (NDArr a) method axis keepdims q = Inl AssertionError)"
  by (auto simp: faststat_def numpy_fallback_def requires_q_iff dest: method_lookup_SomeD)

text \<open>
  C9: a \<open>q\<close> given to a method without parameter is dropped (line 102 passes \<open>q\<close>
  only when \<open>use_q\<close>): the call behaves exactly as without \<open>q\<close>, where the spec
  (4.4) asks for a validation error.
\<close>

theorem faststat_ignores_q:
  assumes "method_lookup method = Some m" "\<not> needs_parameter m"
  shows "faststat K data method axis keepdims (Some x) = faststat K data method axis keepdims None"
proof -
  have "method \<notin> set requires_q" using assms method_lookup_SomeD[OF assms(1)] requires_q_iff by blast
  then have "(if method \<in> set requires_q then Some x else None) = None"
    "(if method \<in> set requires_q then None else None) = None"
    "(method \<in> set requires_q \<and> P) = False" for P :: bool
    by simp_all
  then show ?thesis unfolding faststat_def Let_def by (simp only: if_cancel)
qed

text \<open>
  C10: \<open>axis=None\<close> goes to numpy on the flattened array (lines 71-73): a reducing
  method given its \<open>q\<close> when it needs one yields the 0-d array of the statistic of all
  elements, and \<open>keepdims\<close> is
  not passed on, so \<open>keepdims=True\<close> still gives shape \<open>()\<close> rather than the spec's
  all-ones shape.
\<close>

theorem faststat_fallback_scalar:
  assumes "method_lookup method = Some m" "\<not> is_elementwise m" "needs_parameter m \<Longrightarrow> q \<noteq> None"
  shows "faststat K (NDArr a) method AxisNone keepdims q =
           Inr \<lparr>shape = [], buf = [kred K m (if needs_parameter m then q else None) (buf a)]\<rparr>"
  using assms method_lookup_SomeD[OF assms(1)]
  by (simp add: faststat_def check_axis_def numpy_fallback_def numpy_call_def requires_q_iff)

section \<open>The wrappers never reach the assertion\<close>

text \<open>
  The only \<open>AssertionError\<close> of the model is \<open>assert q is not None\<close> (line 83): numpy's
  axis normalisation, \<open>moveaxis\<close>, \<open>reshape\<close> and the numpy fallback raise other
  exceptions.
\<close>

lemma normalize_axes_not_assert: "normalize_axes n xs \<noteq> Inl AssertionError"
  by (induction xs) (auto simp: normalize_axis_index_def rbind_def split: sum.splits)

lemma moveaxis_not_assert: "moveaxis a src dst \<noteq> Inl AssertionError"
  using normalize_axes_not_assert
  by (auto simp: moveaxis_def normalize_axis_tuple_def rbind_def split: sum.splits if_splits)

lemma reshape_not_assert: "reshape a sh \<noteq> Inl AssertionError"
  by (simp add: reshape_def Let_def)

lemma faststat_assertD:
  "faststat K data method axis keepdims q = Inl AssertionError \<Longrightarrow> method \<in> set requires_q \<and> q = None"
  by (auto simp: faststat_def numpy_call_def Let_def rbind_def moveaxis_not_assert reshape_not_assert
      split: py_input.splits if_splits option.splits sum.splits)

text \<open>
  C18: no public function ever raises the \<open>AssertionError\<close> of line 83: the fourteen
  wrappers without parameter pass names outside \<open>_requires_q\<close>, and the four \<open>q\<close>
  wrappers always pass their \<open>q\<close>. The assertion is unreachable from the public API.
\<close>

theorem wrappers_never_assert:
  "(name \<in> set plain_wrappers \<longrightarrow> reduce_wrapper K name data axis keepdims \<noteq> Inl AssertionError)
   \<and> q_wrapper K name data q axis keepdims \<noteq> Inl AssertionError"
proof
  have "name \<in> set plain_wrappers \<Longrightarrow> name \<notin> set requires_q"
    by (auto simp: plain_wrappers_def requires_q_def)
  then show "name \<in> set plain_wrappers \<longrightarrow> reduce_wrapper K name data axis keepdims \<noteq> Inl AssertionError"
    using faststat_assertD[of K data name axis keepdims None] by (auto simp: reduce_wrapper_def)
next
  show "q_wrapper K name data q axis keepdims \<noteq> Inl AssertionError"
    using faststat_assertD[of K data name axis keepdims "Some q"]
    by (auto simp: q_wrapper_def rbind_def percentile_is_valid_def quantile_is_valid_def split: sum.splits)
qed

end
