(* ===== verification/Indexing.thy ===== *)
theory Indexing
  imports Reference
begin

text \<open>
  numpy's basic indexing \<open>data[i0, :, i1, ...]\<close>, as the specialised kernels use it:
  an index tuple of integers and full slices \<open>:\<close>, shorter than the rank (the missing
  trailing entries are full slices). Each integer fixes its axis, Python style (a
  negative integer counts from the end, out of range is an \<open>IndexError\<close>); more
  entries than axes is an \<open>IndexError\<close>. The result is the sub-array over the
  remaining axes, in their order, its buffer in C order. numpy is a library the
  sources call; this is its documented behaviour, restricted to what the kernels use.
\<close>

datatype py_idx = IInt int | ISlice

text \<open>The position of an element in a list (its first occurrence).\<close>

primrec pos_of :: "'a list \<Rightarrow> 'a \<Rightarrow> nat" where
  "pos_of [] y = 0"
| "pos_of (x # xs) y = (if x = y then 0 else Suc (pos_of xs y))"

text \<open>\<open>operator.index\<close> of one integer against a dimension.\<close>

definition py_index :: "nat \<Rightarrow> int \<Rightarrow> nat result" where
  "py_index d i = (if axis_in_range d i then Inr (nat (py_axis d i)) else Inl IndexError)"

text \<open>The axes an index tuple leaves whole: its full slices and the axes past its end.\<close>

definition idx_free :: "nat \<Rightarrow> py_idx list \<Rightarrow> nat list" where
  "idx_free n ix = filter (\<lambda>p. length ix \<le> p \<or> ix ! p = ISlice) [0..<n]"

definition np_getitem :: "'a ndarray \<Rightarrow> py_idx list \<Rightarrow> 'a ndarray result" where
  "np_getitem a ix =
     (if ndim a < length ix then Inl IndexError
      else let free = idx_free (ndim a) ix
           in rbind (mapM_r (\<lambda>p. case ix ! p of IInt i \<Rightarrow> py_index (shape a ! p) i
                                            | ISlice \<Rightarrow> Inl IndexError)
                       (keep_axes_of (ndim a) free))
                (\<lambda>vals. Inr \<lparr>shape = map ((!) (shape a)) free, buf = group a free vals\<rparr>))"

text \<open>
  The index tuple a \<open>numba_<stat>_keep<axes>\<close> kernel writes for the kept index \<open>k\<close>:
  \<open>n_t\<close> at the position of the \<open>t\<close>-th kept axis, \<open>:\<close> at the axes between, nothing
  after the last kept axis (so \<open>keep = (0, 2)\<close> gives \<open>data[n0, :, n1]\<close>).
\<close>

definition kernel_index :: "nat list \<Rightarrow> idx \<Rightarrow> py_idx list" where
  "kernel_index keep k =
     (if keep = [] then []
      else map (\<lambda>p. if p \<in> set keep then IInt (int (k ! pos_of keep p)) else ISlice)
             [0..<Suc (last keep)])"

section \<open>Lemmas\<close>

lemma pos_of_nth: "distinct xs \<Longrightarrow> t < length xs \<Longrightarrow> pos_of xs (xs ! t) = t"
  by (induction xs arbitrary: t) (auto simp: nth_Cons' split: nat.splits)

lemma map_pos_of: "distinct ps \<Longrightarrow> length k = length ps \<Longrightarrow> map (\<lambda>p. k ! pos_of ps p) ps = k"
  by (rule nth_equalityI) (simp_all add: pos_of_nth)

lemma sorted_le_last: "sorted xs \<Longrightarrow> x \<in> set xs \<Longrightarrow> x \<le> last xs"
proof (induction xs rule: rev_induct)
  case (snoc y ys)
  then show ?case by (auto simp: sorted_append)
qed simp

lemma kernel_index_nth:
  "keep \<noteq> [] \<Longrightarrow> p \<le> last keep \<Longrightarrow>
   kernel_index keep k ! p = (if p \<in> set keep then IInt (int (k ! pos_of keep p)) else ISlice)"
  by (simp add: kernel_index_def nth_append less_Suc_eq_le del: upt_Suc)

lemma length_kernel_index: "keep \<noteq> [] \<Longrightarrow> length (kernel_index keep k) = Suc (last keep)"
  by (simp add: kernel_index_def)

lemma kernel_index_py_index:
  assumes "distinct keep" "k \<in> set (indices (map ((!) (shape a)) keep))" "p \<in> set keep"
  shows "py_index (shape a ! p) (int (k ! pos_of keep p)) = Inr (k ! pos_of keep p)"
proof -
  obtain t where t: "t < length keep" "keep ! t = p" using assms(3) by (metis in_set_conv_nth)
  have "k ! t < shape a ! (keep ! t)" using assms(2) t(1) by (simp add: in_indices_iff)
  then show ?thesis using pos_of_nth[OF assms(1) t(1)] t(2) by (simp add: py_index_def axis_in_range_def)
qed

text \<open>
  The index tuple of a kernel reads exactly the slice of the reference semantics: the
  kept axes fixed to \<open>k\<close>, the others whole, in order.
\<close>

lemma np_getitem_kernel_index:
  assumes srt: "sorted keep" and d: "distinct keep" and ne: "keep \<noteq> []"
    and s: "set keep \<subseteq> {..<ndim a}" and k: "k \<in> set (indices (map ((!) (shape a)) keep))"
  shows "np_getitem a (kernel_index keep k) =
           Inr \<lparr>shape = map ((!) (shape a)) (keep_axes_of (ndim a) keep),
                buf = group a (keep_axes_of (ndim a) keep) k\<rparr>"
proof -
  let ?n = "ndim a" and ?ix = "kernel_index keep k"
  have lastin: "last keep \<in> set keep" using ne by simp
  then have lt: "last keep < ?n" using s by auto
  have len: "length ?ix = Suc (last keep)" using ne by (rule length_kernel_index)
  have ixp: "?ix ! p = (if p \<in> set keep then IInt (int (k ! pos_of keep p)) else ISlice)"
    if "p \<le> last keep" for p
    using kernel_index_nth[OF ne that] .
  have free: "idx_free ?n ?ix = keep_axes_of ?n keep"
    unfolding idx_free_def keep_axes_of_def
  proof (rule filter_cong[OF refl])
    fix p assume "p \<in> set [0..<?n]"
    show "(length ?ix \<le> p \<or> ?ix ! p = ISlice) = (p \<notin> set keep)"
    proof (cases "p \<le> last keep")
      case True
      then show ?thesis using len ixp[OF True] by auto
    next
      case False
      then show ?thesis using len sorted_le_last[OF srt] by fastforce
    qed
  qed
  have fixed: "keep_axes_of ?n (keep_axes_of ?n keep) = keep"
  proof (rule sorted_distinct_set_unique)
    show "sorted (keep_axes_of ?n (keep_axes_of ?n keep))" "distinct (keep_axes_of ?n (keep_axes_of ?n keep))"
      by (simp_all add: keep_axes_of_def sorted_filter[of id, simplified])
    show "sorted keep" "distinct keep" using srt d by simp_all
    show "set (keep_axes_of ?n (keep_axes_of ?n keep)) = set keep"
      using s by (auto simp: keep_axes_of_def)
  qed
  have kl: "length k = length keep" and kb: "\<forall>t < length keep. k ! t < shape a ! (keep ! t)"
    using k by (auto simp: in_indices_iff)
  have vals: "mapM_r (\<lambda>p. case ?ix ! p of IInt i \<Rightarrow> py_index (shape a ! p) i | ISlice \<Rightarrow> Inl IndexError) keep
              = Inr k"
  proof -
    have "\<forall>p \<in> set keep. (case ?ix ! p of IInt i \<Rightarrow> py_index (shape a ! p) i | ISlice \<Rightarrow> Inl IndexError)
                          = Inr (k ! pos_of keep p)"
      using ixp sorted_le_last[OF srt] kernel_index_py_index[OF d k] by simp
    from mapM_r_Inr_cong[OF this] show ?thesis using map_pos_of[OF d kl] by simp
  qed
  show ?thesis
    using lt len by (simp add: np_getitem_def free fixed vals Let_def)
qed

text \<open>
  With \<open>q\<close> appended after the last kept axis (\<open>data[n0, :, n1, q]\<close>), the indexing
  succeeds exactly when there is an axis after the last kept one and \<open>q\<close> is in range
  for it.
\<close>

end
