(* ===== verification/KeepKernels.thy ===== *)
theory KeepKernels
  imports Indexing
begin

text \<open>
  The specialised-dispatch design (spec 2, Repacker; spec 9): one compiled kernel per
  tuple of kept axes. \<open>faststats2/numba/std.py\<close> and
  \<open>faststats2/numba/nanpercentile.py\<close> route an axis argument to its kept axes
  (\<open>routing.get_keep_axes\<close>, not among the sources, modelled from spec 4.2 and the
  glossary) and select \<open>numba_<stat>_keep<axes>\<close> by comparing the tuple with fourteen
  literals; \<open>faststats/numba/percentile.py\<close> receives the kept axes directly and
  knows thirty tuples. A tuple outside the list raises \<open>ValueError\<close>.

  Every kernel has the same shape: an output of the kept dimensions, filled by nested
  \<open>prange\<close> loops over the kept indices in row-major order, each entry the statistic
  of the slice \<open>data[n0, :, n1, ...]\<close> that fixes the kept axes and leaves the others
  whole (in their order). \<open>keep_kernel\<close> is that loop for a given body; the body
  indexes the data with the kernel's index tuple (\<open>kernel_index\<close>, numpy's basic
  indexing \<open>np_getitem\<close> of theory \<open>Indexing\<close>) and applies the statistic to the
  flattened slice. For the std kernels it is \<open>np.std\<close>, a parameter here as the spec
  treats the statistic as a primitive. The percentile kernels index
  \<open>data[n0, ..., q]\<close>, putting \<open>q\<close> as an index on the axis after the last kept one,
  and call \<open>np.percentile\<close> (\<open>np.nanpercentile\<close>) with that one argument, which
  numba does not type: under \<open>@nb.njit\<close> the call of such a kernel raises
  \<open>TypingError\<close> before its loop runs. Each \<open>prange\<close> iteration writes its own
  output cell, so the loop is modelled as the sequential loop.
\<close>

section \<open>Routing\<close>

text \<open>\<open>get_keep_axes(axis, ndim)\<close>: the axes not reduced, in increasing order.\<close>

definition get_keep_axes :: "axis_arg \<Rightarrow> nat \<Rightarrow> nat list" where
  "get_keep_axes ax n = keep_axes_of n (if ax = AxisNone then [0..<n] else reduce_axes ax n)"

section \<open>The kernel loop\<close>

text \<open>
  \<open>output = np.zeros((data.shape[k0], ...))\<close> and the nested loops: an entry per kept
  index, in row-major order; reading \<open>data.shape[k]\<close> past the rank is an
  \<open>IndexError\<close>, and the first body that raises ends the call.
\<close>

definition keep_kernel :: "(idx \<Rightarrow> 'v result) \<Rightarrow> nat list \<Rightarrow> 'a ndarray \<Rightarrow> 'v ndarray result" where
  "keep_kernel body keep a =
     (if list_all (\<lambda>k. k < ndim a) keep
      then rbind (mapM_r body (indices (map ((!) (shape a)) keep)))
             (\<lambda>out. Inr \<lparr>shape = map ((!) (shape a)) keep, buf = out\<rparr>)
      else Inl IndexError)"

section \<open>Standard deviation (faststats2/numba/std.py)\<close>

definition std_keep_table :: "nat list list" where
  "std_keep_table =
     [[0], [1], [0, 1], [0, 2], [1, 2], [0, 1, 2], [0, 1, 3], [0, 2, 3], [1, 2, 3],
      [0, 1, 2, 3], [0, 1, 2, 4], [0, 1, 3, 4], [0, 2, 3, 4], [1, 2, 3, 4]]"

text \<open>\<open>numba_std_keep<axes>(data)\<close>: \<open>output[n] = np.std(data[n0, :, n1, ...])\<close>.\<close>

definition numba_std_keep :: "('v list \<Rightarrow> 'v) \<Rightarrow> nat list \<Rightarrow> 'v ndarray \<Rightarrow> 'v ndarray result" where
  "numba_std_keep np_std keep data =
     keep_kernel (\<lambda>k. rbind (np_getitem data (kernel_index keep k)) (\<lambda>s. Inr (np_std (buf s)))) keep data"

definition get_std :: "('v list \<Rightarrow> 'v) \<Rightarrow> 'v ndarray \<Rightarrow> axis_arg \<Rightarrow> 'v ndarray result" where
  "get_std np_std data axis =
     (let keep_axes = get_keep_axes axis (ndim data)
      in if keep_axes \<in> set std_keep_table then numba_std_keep np_std keep_axes data
         else Inl ValueError)"

section \<open>Percentiles (faststats/numba/percentile.py, faststats2/numba/nanpercentile.py)\<close>

text \<open>
  The kernels are compiled with \<open>@nb.njit\<close>: on its first call numba types the whole
  body before any iteration runs. numba's implementation of \<open>np.percentile\<close> and
  \<open>np.nanpercentile\<close> has the parameters \<open>(a, q)\<close>; a call site with another number
  of arguments does not type, and the call of the kernel raises numba's
  \<open>TypingError\<close>.
\<close>

definition numba_percentile_params :: nat where
  "numba_percentile_params = 2"

definition njit_type_percentile_call :: "nat \<Rightarrow> unit result" where
  "njit_type_percentile_call nargs =
     (if nargs = numba_percentile_params then Inr () else Inl TypingError)"

text \<open>
  What the body's \<open>np.percentile(x)\<close> would do if it ran as Python: \<open>q\<close> is a
  required positional argument, so the one-argument call raises \<open>TypeError\<close>.
\<close>

definition np_percentile_1 :: "'a list \<Rightarrow> 'v result" where
  "np_percentile_1 xs = Inl TypeError"

text \<open>
  \<open>numba_percentile_keep<axes>(data, q)\<close> (and the nan variant): the body
  \<open>output[n] = np.percentile(data[n0, :, n1, ..., q])\<close>, whose percentile call has
  one argument, is typed first; only a body that types would run the loop.
\<close>

definition numba_percentile_keep :: "nat list \<Rightarrow> 'a ndarray \<Rightarrow> int \<Rightarrow> 'v ndarray result" where
  "numba_percentile_keep keep data q =
     rbind (njit_type_percentile_call 1) (\<lambda>_.
       keep_kernel (\<lambda>k. rbind (np_getitem data (kernel_index keep k @ [IInt q]))
                        (\<lambda>s. np_percentile_1 (buf s)))
         keep data)"

definition percentile_keep_table :: "nat list list" where
  "percentile_keep_table =
     [[0], [1], [2], [3], [4], [0, 1], [0, 2], [0, 3], [0, 4], [1, 2], [1, 3], [1, 4], [2, 3],
      [2, 4], [3, 4], [0, 1, 2], [0, 1, 3], [0, 1, 4], [0, 2, 3], [0, 2, 4], [0, 3, 4],
      [1, 2, 3], [1, 2, 4], [1, 3, 4], [2, 3, 4], [0, 1, 2, 3], [0, 1, 2, 4], [0, 1, 3, 4],
      [0, 2, 3, 4], [1, 2, 3, 4]]"

definition get_percentile :: "'a ndarray \<Rightarrow> nat list \<Rightarrow> int \<Rightarrow> 'v ndarray result" where
  "get_percentile data keep_axes q =
     (if keep_axes \<in> set percentile_keep_table then numba_percentile_keep keep_axes data q
      else Inl ValueError)"

definition nanpercentile_keep_table :: "nat list list" where
  "nanpercentile_keep_table =
     [[0], [1], [0, 1], [0, 2], [1, 2], [0, 1, 2], [0, 1, 3], [0, 2, 3], [1, 2, 3],
      [0, 1, 2, 3], [0, 1, 2, 4], [0, 1, 3, 4], [0, 2, 3, 4], [1, 2, 3, 4]]"

definition get_nanpercentile :: "'a ndarray \<Rightarrow> axis_arg \<Rightarrow> int \<Rightarrow> 'v ndarray result" where
  "get_nanpercentile data axis q =
     (let keep_axes = get_keep_axes axis (ndim data)
      in if keep_axes \<in> set nanpercentile_keep_table then numba_percentile_keep keep_axes data q
         else Inl ValueError)"

section \<open>Lemmas\<close>

lemma get_keep_axes_lt: "list_all (\<lambda>k. k < n) (get_keep_axes ax n)"
  by (simp add: get_keep_axes_def keep_axes_of_def list_all_iff)

text \<open>The complement of the complement of distinct axes is the axes, in increasing order.\<close>

lemma keep_axes_of_twice:
  assumes "distinct red" "set red \<subseteq> {..<n}"
  shows "keep_axes_of n (keep_axes_of n red) = sort red"
proof (rule sorted_distinct_set_unique)
  show "sorted (keep_axes_of n (keep_axes_of n red))" "distinct (keep_axes_of n (keep_axes_of n red))"
    by (simp_all add: keep_axes_of_def sorted_filter[of id, simplified])
  show "sorted (sort red)" "distinct (sort red)" using assms(1) by simp_all
  show "set (keep_axes_of n (keep_axes_of n red)) = set (sort red)"
    using assms(2) by (auto simp: keep_axes_of_def)
qed

lemma keep_kernel_Inr:
  "list_all (\<lambda>k. k < ndim a) keep \<Longrightarrow>
   \<forall>k \<in> set (indices (map ((!) (shape a)) keep)). body k = Inr (f k) \<Longrightarrow>
   keep_kernel body keep a =
     Inr \<lparr>shape = map ((!) (shape a)) keep, buf = map f (indices (map ((!) (shape a)) keep))\<rparr>"
proof -
  assume "list_all (\<lambda>k. k < ndim a) keep"
    and "\<forall>k \<in> set (indices (map ((!) (shape a)) keep)). body k = Inr (f k)"
  moreover from this(2) have "mapM_r body (indices (map ((!) (shape a)) keep)) =
                              Inr (map f (indices (map ((!) (shape a)) keep)))"
    by (rule mapM_r_Inr_cong)
  ultimately show ?thesis by (simp add: keep_kernel_def)
qed

lemma get_keep_axes_sorted: "sorted (get_keep_axes ax n) \<and> distinct (get_keep_axes ax n)"
  by (simp add: get_keep_axes_def keep_axes_of_def sorted_filter[of id, simplified])

lemma tables_nonempty: "[] \<notin> set std_keep_table" "[] \<notin> set nanpercentile_keep_table"
  "[] \<notin> set percentile_keep_table"
  by (simp_all add: std_keep_table_def nanpercentile_keep_table_def percentile_keep_table_def)

text \<open>A std kernel computes the statistic of each slice, in row-major order of the kept indices.\<close>

lemma numba_std_keep_slices:
  assumes "sorted keep" "distinct keep" "keep \<noteq> []" "set keep \<subseteq> {..<ndim a}"
  shows "numba_std_keep s keep a =
           Inr \<lparr>shape = map ((!) (shape a)) keep,
                buf = map (\<lambda>k. s (group a (keep_axes_of (ndim a) keep) k)) (indices (map ((!) (shape a)) keep))\<rparr>"
  unfolding numba_std_keep_def
  by (rule keep_kernel_Inr) (use assms in \<open>auto simp: list_all_iff np_getitem_kernel_index\<close>)

text \<open>\<open>get_std\<close> on a supported tuple: the statistic of each group, reduced axes in order.\<close>

lemma get_std_sorted:
  assumes "check_axis axis (ndim a)" "axis \<noteq> AxisNone"
    and "get_keep_axes axis (ndim a) \<in> set std_keep_table"
  shows "get_std s a axis =
           Inr \<lparr>shape = keep_shape (shape a) (reduce_axes axis (ndim a)),
                buf = map (\<lambda>k. s (group a (sort (reduce_axes axis (ndim a))) k))
                        (indices (keep_shape (shape a) (reduce_axes axis (ndim a))))\<rparr>"
proof -
  let ?red = "reduce_axes axis (ndim a)" and ?keep = "get_keep_axes axis (ndim a)"
  have v: "distinct ?red" "set ?red \<subseteq> {..<ndim a}" using reduce_axes_valid[OF assms(1,2)] by auto
  have ka: "?keep = keep_axes_of (ndim a) ?red"
    using assms(2) by (simp add: get_keep_axes_def)
  have ks: "map ((!) (shape a)) (keep_axes_of (ndim a) ?red) = keep_shape (shape a) ?red"
    by (simp add: keep_shape_def ndim_def)
  have ne: "?keep \<noteq> []" using assms(3) tables_nonempty(1) by auto
  have inr: "set ?keep \<subseteq> {..<ndim a}" using get_keep_axes_lt[where ax = axis and n = "ndim a"]
    by (auto simp: list_all_iff)
  show ?thesis
    using assms(3) numba_std_keep_slices[OF _ _ ne inr, of s] get_keep_axes_sorted[of axis "ndim a"]
    by (simp add: get_std_def ka ks keep_axes_of_twice[OF v])
qed

text \<open>A percentile kernel raises \<open>TypingError\<close> before its loop runs.\<close>

lemma numba_percentile_keep_typing: "numba_percentile_keep keep a q = Inl TypingError"
  by (simp add: numba_percentile_keep_def njit_type_percentile_call_def numba_percentile_params_def)

lemma std_table_single_axis:
  "list_all (\<lambda>n. list_all (\<lambda>r. keep_axes_of n [r] \<in> set std_keep_table) [0..<n]) [2..<6]"
  by code_simp

section \<open>The specialised kernels: correctness and coverage\<close>

text \<open>
  C12: \<open>get_std\<close> refines the reference reduction. Whenever the kept axes of a checked
  axis argument are among the fourteen compiled tuples, \<open>get_std\<close> returns the
  reference reduction of \<open>np.std\<close> over the reduced axes, without \<open>keepdims\<close>: each
  kernel reads exactly its groups, in the order of the reference.
\<close>

theorem get_std_refines_reference:
  assumes "check_axis axis (ndim a)" "axis \<noteq> AxisNone"
    and "get_keep_axes axis (ndim a) \<in> set std_keep_table"
  shows "get_std s a axis = Inr (reduce_ref s a (reduce_axes axis (ndim a)) False)"
  using get_std_sorted[OF assms] by (simp add: reduce_ref_def result_shape_def)

text \<open>
  C14: every reduction over a single axis of an array of rank 2 to 5 has its kernel:
  \<open>get_std\<close> returns the reference reduction over that axis.
\<close>

theorem get_std_single_axis:
  assumes "2 \<le> ndim a" "ndim a \<le> 5" "axis_in_range (ndim a) ax"
  shows "get_std s a (AxisInt ax) = Inr (reduce_ref s a [nat (py_axis (ndim a) ax)] False)"
proof -
  let ?r = "nat (py_axis (ndim a) ax)"
  have ck: "check_axis (AxisInt ax) (ndim a)" using assms(3) by (simp add: check_axis_def)
  have r: "?r < ndim a" using py_axis_bounds[OF assms(3)] by (simp add: nat_less_iff)
  have red: "reduce_axes (AxisInt ax) (ndim a) = [?r]" by (simp add: reduce_axes_def axis_list_def)
  have n: "ndim a \<in> set [2..<6]" unfolding set_upt using assms(1,2) by simp
  have "\<forall>n \<in> set [2..<6]. \<forall>r \<in> set [0..<n]. keep_axes_of n [r] \<in> set std_keep_table"
    using std_table_single_axis by (simp only: list_all_iff)
  then have "\<forall>r \<in> set [0..<ndim a]. keep_axes_of (ndim a) [r] \<in> set std_keep_table"
    using n by blast
  then have "keep_axes_of (ndim a) [?r] \<in> set std_keep_table"
    using r by simp
  then have "get_keep_axes (AxisInt ax) (ndim a) \<in> set std_keep_table"
    by (simp add: get_keep_axes_def red)
  from get_std_sorted[OF ck _ this] show ?thesis
    by (simp add: red reduce_ref_def result_shape_def)
qed

text \<open>
  C15: \<open>get_std\<close> fails exactly when the kept axes are not among the compiled tuples,
  and then with \<open>ValueError\<close> (line 36): the spec (4.5) asks for a fall back to the
  reference path instead, e.g. for the reduction over axes \<open>(0, 1)\<close> of a rank-3 array.
\<close>

theorem get_std_error_iff:
  "get_std s a axis = Inl e \<longleftrightarrow> e = ValueError \<and> get_keep_axes axis (ndim a) \<notin> set std_keep_table"
proof -
  let ?keep = "get_keep_axes axis (ndim a)"
  have inr: "set ?keep \<subseteq> {..<ndim a}" using get_keep_axes_lt[where ax = axis and n = "ndim a"]
    by (auto simp: list_all_iff)
  have "?keep \<in> set std_keep_table \<Longrightarrow> \<exists>r. get_std s a axis = Inr r"
  proof -
    assume t: "?keep \<in> set std_keep_table"
    then have "?keep \<noteq> []" using tables_nonempty(1) by auto
    with t show ?thesis
      using numba_std_keep_slices[OF _ _ _ inr, of s] get_keep_axes_sorted[of axis "ndim a"]
      by (simp add: get_std_def Let_def)
  qed
  then show ?thesis by (auto simp: get_std_def Let_def)
qed

text \<open>
  C16: \<open>get_percentile\<close> of \<open>faststats/numba/percentile.py\<close> never yields a value:
  an unknown tuple raises \<open>ValueError\<close>; a known one calls its kernel, whose
  one-argument \<open>np.percentile\<close> call does not type under \<open>@nb.njit\<close>, so the call
  raises \<open>TypingError\<close> for every input, an empty output included.
\<close>

theorem get_percentile_fails:
  "\<exists>e \<in> {ValueError, TypingError}. get_percentile a keep_axes q = (Inl e :: 'v ndarray result)"
proof (cases "keep_axes \<in> set percentile_keep_table")
  case True
  then have "get_percentile a keep_axes q = (Inl TypingError :: 'v ndarray result)"
    by (simp add: get_percentile_def numba_percentile_keep_typing)
  then show ?thesis by blast
next
  case False
  then have "get_percentile a keep_axes q = (Inl ValueError :: 'v ndarray result)"
    unfolding get_percentile_def by (simp only: if_False)
  then show ?thesis by blast
qed

text \<open>
  C17: the same for \<open>get_nanpercentile\<close> of \<open>faststats2/numba/nanpercentile.py\<close>:
  for every axis argument it raises, \<open>ValueError\<close> off its fourteen tuples and
  \<open>TypingError\<close> from the kernel on them.
\<close>

theorem get_nanpercentile_fails:
  "\<exists>e \<in> {ValueError, TypingError}. get_nanpercentile a axis q = (Inl e :: 'v ndarray result)"
proof (cases "get_keep_axes axis (ndim a) \<in> set nanpercentile_keep_table")
  case True
  then have "get_nanpercentile a axis q = (Inl TypingError :: 'v ndarray result)"
    by (simp add: get_nanpercentile_def Let_def numba_percentile_keep_typing)
  then show ?thesis by blast
next
  case False
  then have "get_nanpercentile a axis q = (Inl ValueError :: 'v ndarray result)"
    unfolding get_nanpercentile_def Let_def by (simp only: if_False)
  then show ?thesis by blast
qed

end
