(* ===== verification/Spec2Isabelle.thy ===== *)
theory Spec2Isabelle
  imports Faststat KeepKernels MoveAxis
begin

text \<open>
  \<^bold>\<open>faststats: a verification development.\<close>

  \<^bold>\<open>The program.\<close> \<open>src/_old_faststats/faststats.py\<close> is the generic reduction
  engine: \<open>faststat(data, method, axis, keepdims, q)\<close> validates its input, looks the
  method up in \<open>_method_lookup\<close>, moves the reduced axes to the back with
  \<open>np.moveaxis\<close>, reshapes to a \<open>(rows, num_reduce)\<close> matrix, calls one numba kernel
  on it, and reshapes the result (moving the axis back first for the z-scores); with
  \<open>axis=None\<close> it defers to numpy. Eighteen wrappers (\<open>sum\<close> ... \<open>nan_zscore\<close>)
  call it. \<open>src/faststats2/numba/std.py\<close>, \<open>src/faststats2/numba/nanpercentile.py\<close>
  and \<open>src/faststats/numba/percentile.py\<close> are the other design: one compiled kernel per
  tuple of kept axes, chosen by comparing the tuple with a list of literals.

  \<^bold>\<open>Theories.\<close>
  \<^item> \<open>Prelude\<close>: the Python exceptions (\<open>py_error\<close>, with numba's \<open>TypingError\<close>),
    results \<open>py_error + 'a\<close> with \<open>rbind\<close>, the loop \<open>mapM_r\<close> whose body may raise,
    Python's negative axes (\<open>py_axis\<close>), list and product lemmas shared by the
    components.
  \<^item> \<open>NDArray\<close>: numpy arrays as a record of a shape and a C-ordered buffer;
    \<open>indices\<close>/\<open>ravel\<close>, \<open>transpose\<close>, numpy's \<open>normalize_axis_tuple\<close>, \<open>moveaxis\<close>
    (its insertion algorithm) and \<open>reshape\<close> with one inferred \<open>-1\<close>. numpy is a
    library the sources call; these are modelled from its documented behaviour.
    Lemmas: \<open>moveaxis\<close> to trailing positions is a transpose, \<open>reshape\<close> to rows.
  \<^item> \<open>Axes\<close>: the axis argument (\<open>axis_arg\<close>), \<open>_check_axis\<close>, \<open>_numpy_fallback\<close>,
    \<open>_get_result_shape\<close> (from the spec: \<open>faststats/utils.py\<close> is not among the
    sources) and what \<open>faststat\<close> computes from the axis, \<open>num_reduce\<close> and
    \<open>target\<close> (lines 89-99).
  \<^item> \<open>Reference\<close>: the spec's reference semantics: \<open>group a red k\<close> (the elements whose
    kept axes carry index \<open>k\<close>), \<open>reduce_ref\<close>, \<open>elementwise_ref\<close>; the rows of the
    transposed array are the groups; reordering reduced axes permutes a group.
  \<^item> \<open>Kernels\<close>: \<open>_method_lookup\<close>, \<open>_requires_q\<close>, \<open>_noreduction\<close> (lines 35-60); the
    numba kernels as a parameter record \<open>kernels\<close> (a reducing \<open>kred\<close> and an
    elementwise \<open>kelem\<close>), as spec 1 treats them as primitives; \<open>numba_call\<close> applies
    one to the row matrix; \<open>numpy_call\<close> is the numpy fallback of line 73.
  \<^item> \<open>MoveAxis\<close>: \<open>moveaxis\<close> only permutes the axes, so it keeps the size, and moving
    the trailing axes to \<open>xs\<close> succeeds exactly when \<open>xs\<close> is a valid axis tuple.
  \<^item> \<open>Faststat\<close>: \<open>faststat\<close> (lines 63-114) branch by branch and the wrappers
    (lines 120-193); the engine's theorems.
  \<^item> \<open>Indexing\<close>: numpy's basic indexing \<open>data[i0, :, i1, ...]\<close> (\<open>np_getitem\<close>,
    from numpy's documented behaviour) and the index tuple a specialised kernel writes
    for a kept index (\<open>kernel_index\<close>, from the kernels' code); the tuple reads
    exactly the reference group.
  \<^item> \<open>KeepKernels\<close>: \<open>get_std\<close>, \<open>get_nanpercentile\<close>, \<open>get_percentile\<close>, their
    tables of kept-axes tuples, and the kernel family as one loop \<open>keep_kernel\<close> over
    the kept indices, whose body indexes the data with \<open>kernel_index\<close> and applies
    the statistic to the flattened slice. The percentile kernels are typed by numba
    before they run (\<open>njit_type_percentile_call\<close>): their one-argument
    \<open>np.percentile\<close> call does not type. The routing \<open>get_keep_axes\<close>
    (\<open>faststats2/routing.py\<close>, not among the sources) is modelled from the spec: the
    axes not reduced, in order.
  \<^item> \<open>Spec2Isabelle\<close> (this theory): the agreement of the two designs, the z-score
    counterexample, and every theorem applied at concrete inputs (the spec's
    \<open>(2, 3, 4)\<close> array filled with \<open>0 .. 23\<close>).

  \<^bold>\<open>What is shown.\<close> The generic engine refines the reference
  reduction for every permutation-invariant statistic (C1), has the documented result
  shape (C2), ignores the order of the listed axes (C3), computes the z-score
  correctly along the last axis (C4), and fails as the code says on each error path
  (C6-C8); the wrappers never reach its assertion (C18). The std kernels refine the
  same reference (C12), agree with the engine (C13), cover every single-axis reduction
  of rank 2 to 5 (C14), and fail exactly off their table (C15). The lookup table is a
  bijection onto the kernels (C11).

  \<^bold>\<open>Findings.\<close> The z-score over a middle axis misplaces its output
  (C5) and over an axis number \<open>\<ge> 2\<close> raises \<open>AxisError\<close>
  (C6, and C19 for sequences of axes), because line 110 moves the axis back on the
  two-dimensional row matrix; in general the z-score returns a value exactly when
  the axis argument is also valid for a two-dimensional array (C20), so axes that are
  distinct for the input but coincide modulo 2, such as \<open>(0, -2)\<close>, raise
  \<open>ValueError\<close>. Every percentile and nanpercentile kernel calls numpy's percentile
  with one argument, which numba cannot type, so \<open>get_percentile\<close> and
  \<open>get_nanpercentile\<close> never return a value (C16, C17). Against the spec: \<open>q\<close> is
  ignored for methods without parameter (C9), \<open>keepdims\<close> is dropped on
  the numpy path (C10), errors are
  \<open>ValueError\<close>/\<open>AssertionError\<close> rather than validation
  errors (C8), and a missing kept-axes kernel is an error instead of a fall back
  (C15).

  \<^bold>\<open>Bounds and fuel.\<close> No loop of the program is unbounded: every loop runs over a
  finite index list (\<open>indices\<close>, \<open>mapM_r\<close>), so every definition is total by
  structural recursion and no fuel is needed; the model is executable. For the same
  reason the development has no termination or liveness theorems: no definition needs
  a termination argument beyond structural recursion, and the library is a set of pure
  functions with no reactive state of which progress could be claimed.

  \<^bold>\<open>Not modelled.\<close> The numeric kernels (\<open>_numba\<close>, numpy's statistics) are
  parameters, as the spec excludes them; floating point is not modelled (statistics are
  over any type, the concrete checks over \<open>real\<close>). Vector-valued \<open>q\<close> is not modelled
  (spec 9 leaves it open). Parallel execution (\<open>prange\<close>) is modelled as the
  sequential loop: each iteration writes its own output cell, so the order of the
  iterations does not change the result (spec 5). When the JIT is disabled the
  percentile kernels would run as Python; the model takes the compiled code, as the
  decorators ask. \<open>_get_numpy_method\<close> and
  the other helpers of \<open>faststats/utils.py\<close>, and \<open>routing.get_keep_axes\<close>, are not among
  the sources and are modelled from the spec. \<open>_numpy_fallback(axis, ndim)\<close> is
  modelled as \<open>axis is None\<close>, as spec 4.2 describes it; the helper may also take
  \<open>ndim\<close> into account, which the spec does not say. The validity helpers of the
  \<open>q\<close> wrappers are modelled as raising \<open>ValueError\<close> (spec 4.4), since the code
  discards their value.
\<close>

section \<open>Concrete inputs\<close>

text \<open>
  The kernels used in the concrete checks: the sum of a row (\<open>K0\<close>) as the reducing
  statistic and the population z-score as the elementwise one; the array \<open>(2, 3, 4)\<close>
  filled with \<open>0 .. 23\<close> in row-major order (the spec's scenario), the array
  \<open>[[[0, 0], [2, 2]]]\<close>, and an array of shape \<open>(2, 0)\<close>.
\<close>

definition K0 :: "(real, real) kernels" where
  "K0 = \<lparr>kred = \<lambda>m q xs. sum_list xs, kelem = \<lambda>m. zscore_row\<rparr>"

definition A0 :: "real ndarray" where
  "A0 = \<lparr>shape = [2, 3, 4], buf = map real [0..<24]\<rparr>"

definition A1 :: "real ndarray" where
  "A1 = \<lparr>shape = [1, 2, 2], buf = [0, 0, 2, 2]\<rparr>"

definition A2 :: "real ndarray" where
  "A2 = \<lparr>shape = [2, 0], buf = []\<rparr>"

section \<open>Lemmas on the concrete inputs\<close>

lemma sum_list_perm_invariant: "perm_invariant (sum_list :: real list \<Rightarrow> real)"
  unfolding perm_invariant_def
proof (intro allI impI)
  fix xs ys :: "real list"
  assume "mset xs = mset ys"
  then have "sum_mset (mset xs) = sum_mset (mset ys)" by simp
  then show "sum_list xs = sum_list ys" by (simp add: sum_mset_sum_list)
qed

lemma A0_facts [simp]: "shape A0 = [2, 3, 4]" "ndim A0 = 3"
  by (simp_all add: A0_def ndim_def)

lemma K0_simps [simp]: "kred K0 m q = sum_list" "kelem K0 m = zscore_row"
  by (simp_all add: K0_def fun_eq_iff)

lemma lookup_simps [simp]:
  "method_lookup ''sum'' = Some Sum" "method_lookup ''mean'' = Some Mean"
  "method_lookup ''zscore'' = Some Zscore" "method_lookup ''percentile'' = Some Percentile"
  by (simp_all add: method_lookup_def method_table_def)

lemma group_A1:
  "group A1 [1] [0, 0] = [0, 2]" "group A1 [1] [0, 1] = [0, 2]"
  by (simp_all add: A1_def group_def row_source_def keep_axes_of_def ndim_def get_def upt_rec numeral_2_eq_2)

section \<open>The z-score over a middle axis\<close>

text \<open>
  C5: z-score over a middle axis misplaces its output. For the array
  \<open>[[[0, 0], [2, 2]]]\<close> of shape \<open>(1, 2, 2)\<close> and \<open>axis=1\<close>, the groups are the
  columns \<open>[0, 2]\<close>, so the spec's result is \<open>[[[-1, -1], [1, 1]]]\<close>; \<open>faststat\<close>
  returns \<open>[[[-1, 1], [-1, 1]]]\<close>: line 110 moves the axis back on the two-dimensional
  row matrix, where it changes nothing, and the reshape then lays the groups out
  along the last axis.
\<close>

theorem faststat_zscore_middle_axis:
  "faststat K0 (NDArr A1) ''zscore'' (AxisInt 1) False None = Inr \<lparr>shape = [1, 2, 2], buf = [-1, 1, -1, 1]\<rparr>
   \<and> elementwise_ref zscore_row A1 [1] = \<lparr>shape = [1, 2, 2], buf = [-1, -1, 1, 1]\<rparr>"
proof
  have ck: "check_axis (AxisInt 1) (ndim A1)" by (simp add: A1_def check_axis_def axis_in_range_def ndim_def)
  have pos: "0 < num_reduce (shape A1) (AxisInt 1)" by (simp add: A1_def num_reduce_def)
  have ks: "indices (keep_shape (shape A1) [1]) = [[0, 0], [0, 1]]"
    by (simp add: A1_def keep_shape_def keep_axes_of_def upt_rec numeral_2_eq_2)
  have L: "faststat K0 (NDArr A1) ''zscore'' (AxisInt 1) False None =
      Inr \<lparr>shape = shape A1,
           buf = concat (map (\<lambda>k. map (zscore_row (group A1 [1] k)) [0..<2])
                          (indices (keep_shape (shape A1) [1])))\<rparr>"
    using faststat_elementwise_moved_layout[OF _ _ ck _ pos, of "''zscore''" Zscore K0]
    by (simp add: is_elementwise_def py_axis_def ndim_def A1_def)
  show "faststat K0 (NDArr A1) ''zscore'' (AxisInt 1) False None = Inr \<lparr>shape = [1, 2, 2], buf = [-1, 1, -1, 1]\<rparr>"
    unfolding L ks list.map group_A1 by (simp add: zscore_row_def upt_rec A1_def)
next
  have ix: "indices [1, 2, 2] = [[0, 0, 0], [0, 0, 1], [0, 1, 0], [0, 1, 1]]"
    by (simp add: upt_rec)
  show "elementwise_ref zscore_row A1 [1] = \<lparr>shape = [1, 2, 2], buf = [-1, -1, 1, 1]\<rparr>"
    unfolding elementwise_ref_def Let_def A1_def ndarray.select_convs ix
    by (simp add: group_def row_source_def keep_axes_of_def ndim_def get_def upt_rec numeral_2_eq_2
        zscore_row_def)
qed

section \<open>The engine's theorems at concrete inputs\<close>

lemma check_A0 [simp]:
  "check_axis (AxisInt 1) 3" "check_axis (AxisInt 2) 3" "check_axis (AxisInt (-1)) 3"
  "check_axis (AxisSeq [0, 2]) 3" "check_axis (AxisSeq [2, 0]) 3"
  by (simp_all add: check_axis_def axis_in_range_def py_axis_def)

lemma num_reduce_A0 [simp]:
  "num_reduce [2, 3, 4] (AxisInt 1) = 3" "num_reduce [2, 3, 4] (AxisInt 2) = 4"
  "num_reduce [2, 3, 4] (AxisInt (-1)) = 4" "num_reduce [2, 3, 4] (AxisSeq [0, 2]) = 8"
  by (simp_all add: num_reduce_def py_axis_def)

theorem faststat_refines_reference_witness:
  "faststat K0 (NDArr A0) ''sum'' (AxisInt 1) False None = Inr (reduce_ref sum_list A0 [1] False)"
  using faststat_refines_reference[of "AxisInt 1" A0 "''sum''" Sum None K0 False]
  by (simp add: sum_list_perm_invariant reduce_axes_def axis_list_def is_elementwise_def)

theorem faststat_result_shape_witness:
  "\<exists>r. faststat K0 (NDArr A0) ''sum'' (AxisSeq [0, 2]) True None = Inr r \<and> wf_arr r \<and> shape r = [1, 3, 1]"
  using faststat_result_shape[of "AxisSeq [0, 2]" A0 "''sum''" Sum None K0 True]
  by (simp add: get_result_shape_def result_shape_def reduce_axes_def axis_list_def upt_rec is_elementwise_def)

theorem faststat_axis_order_invariant_witness:
  "faststat K0 (NDArr A0) ''sum'' (AxisSeq [0, 2]) False None =
   faststat K0 (NDArr A0) ''sum'' (AxisSeq [2, 0]) False None"
  using faststat_axis_order_invariant[of "[0, 2]" A0 "[2, 0]" "''sum''" Sum None K0 False]
  by (simp add: sum_list_perm_invariant is_elementwise_def)

theorem faststat_elementwise_last_axis_witness:
  "faststat K0 (NDArr A0) ''zscore'' (AxisInt (-1)) False None = Inr (elementwise_ref zscore_row A0 [2])"
  using faststat_elementwise_last_axis[of "''zscore''" Zscore A0 K0 False None]
  by (simp add: is_elementwise_def)

theorem faststat_elementwise_axis_error_witness:
  "faststat K0 (NDArr A0) ''zscore'' (AxisInt 2) False None = Inl AxisError"
  using faststat_elementwise_axis_error[of "''zscore''" Zscore 2 A0 K0 False None]
  by (simp add: is_elementwise_def)

theorem faststat_zero_size_axis_witness:
  "faststat K0 (NDArr A2) ''sum'' (AxisInt 1) False None = Inl ValueError"
  using faststat_zero_size_axis[of "AxisInt 1" A2 "''sum''" Sum None K0 False]
  by (simp add: A2_def ndim_def check_axis_def axis_in_range_def num_reduce_def)

theorem faststat_input_errors_witness:
  "faststat K0 NotAnArray ''sum'' AxisNone False None = Inl TypeError
   \<and> faststat K0 (NDArr A0) ''sum'' (AxisInt 5) False None = Inl ValueError
   \<and> faststat K0 (NDArr A0) ''nosuch'' (AxisInt 1) False None = Inl ValueError
   \<and> faststat K0 (NDArr A0) ''percentile'' (AxisInt 1) False None = Inl AssertionError"
proof -
  have "method_lookup ''nosuch'' = None" by (simp add: method_lookup_def method_table_def)
  moreover have "\<not> check_axis (AxisInt 5) 3" by (simp add: check_axis_def axis_in_range_def)
  ultimately show ?thesis
    using faststat_input_errors[of K0 "''sum''" AxisNone False None A0 Sum]
      faststat_input_errors[of K0 "''sum''" "AxisInt 5" False None A0 Sum]
      faststat_input_errors[of K0 "''nosuch''" "AxisInt 1" False None A0 Sum]
      faststat_input_errors[of K0 "''percentile''" "AxisInt 1" False None A0 Percentile]
    by simp
qed

theorem faststat_ignores_q_witness:
  "faststat K0 (NDArr A0) ''mean'' (AxisInt 1) False (Some 50) =
   faststat K0 (NDArr A0) ''mean'' (AxisInt 1) False None"
  using faststat_ignores_q[of "''mean''" Mean K0 "NDArr A0" "AxisInt 1" False 50] by simp

theorem faststat_fallback_scalar_witness:
  "faststat K0 (NDArr A0) ''sum'' AxisNone True None = Inr \<lparr>shape = [], buf = [276]\<rparr>"
  using faststat_fallback_scalar[of "''sum''" Sum None K0 A0 True]
  by (simp add: is_elementwise_def A0_def upt_rec)

section \<open>The two designs agree\<close>

text \<open>
  C13: the specialised-dispatch kernels of \<open>faststats2\<close> and the generic engine
  \<open>faststat\<close> compute the same standard deviation (spec 2, Repacker: "both strategies
  must produce numerically identical results"): whenever \<open>get_std\<close> has a kernel for
  the kept axes and the reduction is non-empty, \<open>get_std\<close> and
  \<open>faststat(data, "std", axis)\<close> return the same array, for any permutation-invariant
  \<open>np.std\<close>.
\<close>

theorem get_std_agrees_faststat:
  assumes ck: "check_axis axis (ndim a)" and nn: "axis \<noteq> AxisNone"
    and tb: "get_keep_axes axis (ndim a) \<in> set std_keep_table"
    and pos: "0 < num_reduce (shape a) axis"
    and ks: "kred K Std None = s" and inv: "perm_invariant s"
  shows "get_std s a axis = faststat K (NDArr a) ''std'' axis False None"
proof -
  have lk: "method_lookup ''std'' = Some Std" by (simp add: method_lookup_def method_table_def)
  have ne: "\<not> is_elementwise Std" by (simp add: is_elementwise_def)
  have "faststat K (NDArr a) ''std'' axis False None =
          Inr \<lparr>shape = get_result_shape (shape a) axis False,
               buf = map (\<lambda>k. kred K Std (if needs_parameter Std then None else None)
                                 (group a (sort (reduce_axes axis (ndim a))) k))
                       (indices (keep_shape (shape a) (reduce_axes axis (ndim a))))\<rparr>"
    by (rule faststat_reduce_sorted[OF ck nn lk ne _ pos]) (simp_all add: ks inv)
  then show ?thesis
    using get_std_sorted[OF ck nn tb, of s]
    by (simp add: ks get_result_shape_def result_shape_def ndim_def)
qed

section \<open>The specialised kernels at concrete inputs\<close>

lemma keep_A0 [simp]:
  "get_keep_axes (AxisInt 1) 3 = [0, 2]" "get_keep_axes (AxisInt (-1)) 3 = [0, 1]"
  by (simp_all add: get_keep_axes_def keep_axes_of_def reduce_axes_def axis_list_def py_axis_def upt_rec)

lemma std_table_A0: "[0, 2] \<in> set std_keep_table"
  "[0, 2] \<in> set percentile_keep_table"
  by code_simp+

theorem get_std_refines_reference_witness:
  "get_std sum_list A0 (AxisInt 1) = Inr (reduce_ref sum_list A0 [1] False)"
  using get_std_refines_reference[of "AxisInt 1" A0 sum_list] std_table_A0
  by (simp add: reduce_axes_def axis_list_def)

theorem get_std_agrees_faststat_witness:
  "get_std sum_list A0 (AxisInt 1) = faststat K0 (NDArr A0) ''std'' (AxisInt 1) False None"
  using get_std_agrees_faststat[of "AxisInt 1" A0 K0 sum_list] std_table_A0 sum_list_perm_invariant
  by simp

theorem get_std_single_axis_witness:
  "get_std sum_list A0 (AxisInt (-1)) = Inr (reduce_ref sum_list A0 [2] False)"
  using get_std_single_axis[of A0 "-1" sum_list]
  by (simp add: axis_in_range_def py_axis_def)

theorem wrappers_never_assert_witness:
  "reduce_wrapper K0 ''sum'' (NDArr A0) (AxisInt 1) False \<noteq> Inl AssertionError
   \<and> q_wrapper K0 ''percentile'' (NDArr A0) 50 (AxisInt 1) False \<noteq> Inl AssertionError"
  using wrappers_never_assert[of "''sum''" K0 "NDArr A0" "AxisInt 1" False 50]
    wrappers_never_assert[of "''percentile''" K0 "NDArr A0" "AxisInt 1" False 50]
  by (simp add: plain_wrappers_def)

theorem faststat_elementwise_seq_axis_error_witness:
  "faststat K0 (NDArr A0) ''zscore'' (AxisSeq [1, 2]) False None = Inl AxisError"
  using faststat_elementwise_seq_axis_error[of "''zscore''" Zscore "[1, 2]" A0 K0 False None]
  by (simp add: is_elementwise_def check_axis_def axis_in_range_def num_reduce_def)

theorem faststat_elementwise_succeeds_iff_witness:
  "(\<exists>r. faststat K0 (NDArr A0) ''zscore'' (AxisSeq [-2, -1]) False None = Inr r) \<and>
   \<not> (\<exists>r. faststat K0 (NDArr A0) ''zscore'' (AxisSeq [0, -2]) False None = Inr r)"
proof -
  have lk: "method_lookup ''zscore'' = Some Zscore" and ew: "is_elementwise Zscore"
    by (simp_all add: is_elementwise_def)
  have "(\<exists>r. faststat K0 (NDArr A0) ''zscore'' (AxisSeq [-2, -1]) False None = Inr r) \<longleftrightarrow>
          check_axis (AxisSeq [-2, -1]) 2"
    by (rule Faststat.faststat_elementwise_succeeds_iff[OF lk ew])
       (simp_all add: check_axis_def axis_in_range_def py_axis_def num_reduce_def)
  moreover have "(\<exists>r. faststat K0 (NDArr A0) ''zscore'' (AxisSeq [0, -2]) False None = Inr r) \<longleftrightarrow>
          check_axis (AxisSeq [0, -2]) 2"
    by (rule Faststat.faststat_elementwise_succeeds_iff[OF lk ew])
       (simp_all add: check_axis_def axis_in_range_def py_axis_def num_reduce_def)
  ultimately show ?thesis by (simp add: check_axis_def axis_in_range_def py_axis_def)
qed

end
